theory Spec2Isabelle
  imports Complex_Main "HOL-Library.Word"
begin

section \<open>The order book (OrderBook.h, OrderBook.cpp)\<close>

text \<open>
  Numbers. A C++ \<open>double\<close> is modelled by the real number it denotes (NaN, the
  infinities and rounding are outside the model: the order book only compares, copies and
  takes min/max of prices). A \<open>long\<close> quantity is the integer it denotes; the
  \<open>size_t\<close> counters are 64-bit words, so \<open>fetch_add\<close> and \<open>fetch_sub\<close> wrap.
\<close>

subsection \<open>Data\<close>

text \<open>
  \<open>struct Order\<close>. The \<open>timestamp\<close> member is written by the constructor and read by
  nothing in the repository; it is left out.
\<close>

record Order =
  orderId :: string
  userId :: string
  symbol :: string
  side :: string
  quantity :: int
  price :: real
  isActive :: bool

text \<open>\<open>struct Trade\<close>; \<open>executedAt\<close> is the reading of the system clock.\<close>

record Trade =
  tradeId :: string
  orderId :: string
  userId :: string
  symbol :: string
  side :: string
  quantity :: int
  price :: real
  totalValue :: real
  executedAt :: int

text \<open>
  The book stores \<open>std::shared_ptr<Order>\<close>: a pointer is an address, and the objects
  live in a heap that maps addresses to orders. OrderBook.cpp never writes through such a
  pointer, so every operation reads the heap and none returns a changed one.
  \<open>std::remove\<close> on a level compares pointers, not order contents.
\<close>

type_synonym order_ptr = nat
type_synonym heap = "order_ptr \<Rightarrow> Order"

text \<open>
  \<open>std::map<double, std::vector<std::shared_ptr<Order>>, Compare>\<close>: the levels in
  iteration order, best price first. \<open>begin()\<close> is the head of the list.
\<close>

type_synonym level = "real \<times> order_ptr list"

text \<open>\<open>m[p].push_back(x)\<close> for a map ordered by the comparison \<open>cmp\<close>.\<close>

fun level_push :: "(real \<Rightarrow> real \<Rightarrow> bool) \<Rightarrow> real \<Rightarrow> order_ptr \<Rightarrow> level list \<Rightarrow> level list" where
  "level_push cmp p x [] = [(p, [x])]"
| "level_push cmp p x ((k, v) # ls) =
     (if cmp p k then (p, [x]) # (k, v) # ls
      else if cmp k p then (k, v) # level_push cmp p x ls
      else (k, v @ [x]) # ls)"

text \<open>\<open>m.find(p)\<close>: the vector stored at key \<open>p\<close>, if any.\<close>

fun level_find :: "real \<Rightarrow> level list \<Rightarrow> order_ptr list option" where
  "level_find p [] = None"
| "level_find p ((k, v) # ls) = (if k = p then Some v else level_find p ls)"

text \<open>\<open>m.erase(it)\<close> for the iterator that \<open>find(p)\<close> returned.\<close>

fun level_erase :: "real \<Rightarrow> level list \<Rightarrow> level list" where
  "level_erase p [] = []"
| "level_erase p ((k, v) # ls) = (if k = p then ls else (k, v) # level_erase p ls)"

text \<open>Assignment through the reference \<open>it->second\<close>.\<close>

fun level_store :: "real \<Rightarrow> order_ptr list \<Rightarrow> level list \<Rightarrow> level list" where
  "level_store p w [] = []"
| "level_store p w ((k, v) # ls) = (if k = p then (k, w) # ls else (k, v) # level_store p w ls)"

text \<open>
  The block shared by both branches of \<open>removeOrder\<close>: find the level of the order's
  price; if it exists, drop every copy of the pointer from its vector and erase the level
  when the vector is empty.
\<close>

definition remove_from_side :: "order_ptr \<Rightarrow> real \<Rightarrow> level list \<Rightarrow> level list" where
  "remove_from_side x p ls =
     (case level_find p ls of
        None \<Rightarrow> ls
      | Some v \<Rightarrow>
          (let v' = removeAll x v
           in if v' = [] then level_erase p ls else level_store p v' ls))"

text \<open>
  \<open>class OrderBook\<close>. The mutexes, the unused pending queue and processing thread, and
  the reference to the global market-data store are left out: the operations below do not
  touch them, apart from the lock (see \<open>updateOrder\<close>).
\<close>

text \<open>Field names are the members' names without the trailing underscore.\<close>

record OrderBook =
  symbol :: string
  buyOrders :: "level list"
  sellOrders :: "level list"
  totalOrders :: "64 word"
  totalVolume :: "64 word"
  lastTradePrice :: real
  orders :: "string \<rightharpoonup> order_ptr"
  lastPrice :: real
  bestBid :: real
  bestAsk :: real

text \<open>The constructor: every container empty, every atomic at its initialiser.\<close>

definition OrderBook_ctor :: "string \<Rightarrow> OrderBook" where
  "OrderBook_ctor name =
     \<lparr> OrderBook.symbol = name,
       OrderBook.buyOrders = [],
       OrderBook.sellOrders = [],
       OrderBook.totalOrders = 0,
       OrderBook.totalVolume = 0,
       OrderBook.lastTradePrice = 0,
       OrderBook.orders = Map.empty,
       OrderBook.lastPrice = 0,
       OrderBook.bestBid = 0,
       OrderBook.bestAsk = 0 \<rparr>"

datatype error =
    RelockOwnedMutex  \<comment> \<open>\<open>lock()\<close> on a \<open>std::shared_mutex\<close> the thread already owns\<close>
  | EmptyLevelRead    \<comment> \<open>\<open>second[0]\<close> on an empty vector\<close>
  | RuntimeError      \<comment> \<open>\<open>std::runtime_error\<close> thrown by the decoder\<close>
  | InvalidArgument   \<comment> \<open>\<open>std::invalid_argument\<close> of \<open>std::stod\<close> and \<open>std::stol\<close>\<close>
  | OutOfRange        \<comment> \<open>\<open>std::out_of_range\<close> of \<open>std::stod\<close> and \<open>std::stol\<close>\<close>
  | Unmodelled        \<comment> \<open>an input of \<open>std::stod\<close> whose result the model cannot express\<close>

subsection \<open>Operations\<close>

text \<open>
  \<open>OrderBook::addOrder\<close> (OrderBook.cpp 15-49). There is no test on the order's
  fields; the only \<open>return false\<close> is in the handler of an exception that the body
  raises on allocation failure only, which is not modelled.
\<close>

definition addOrder :: "heap \<Rightarrow> OrderBook \<Rightarrow> order_ptr \<Rightarrow> bool \<times> OrderBook" where
  "addOrder H bk x =
     (let ord = H x;
          bk1 = bk\<lparr>OrderBook.orders := (OrderBook.orders bk)(Order.orderId ord \<mapsto> x)\<rparr>;
          bk2 = (if Order.side ord = ''BUY''
                 then bk1\<lparr>OrderBook.buyOrders := level_push (>) (Order.price ord) x (OrderBook.buyOrders bk1),
                          OrderBook.bestBid := max (OrderBook.bestBid bk1) (Order.price ord)\<rparr>
                 else if Order.side ord = ''SELL''
                 then bk1\<lparr>OrderBook.sellOrders := level_push (<) (Order.price ord) x (OrderBook.sellOrders bk1),
                          OrderBook.bestAsk := min (OrderBook.bestAsk bk1) (Order.price ord)\<rparr>
                 else bk1)
      in (True, bk2\<lparr>OrderBook.totalOrders := OrderBook.totalOrders bk2 + 1,
                    OrderBook.totalVolume := OrderBook.totalVolume bk2 + word_of_int (Order.quantity ord)\<rparr>))"

text \<open>\<open>OrderBook::removeOrder\<close> (OrderBook.cpp 51-105).\<close>

definition removeOrder :: "heap \<Rightarrow> OrderBook \<Rightarrow> string \<Rightarrow> bool \<times> OrderBook" where
  "removeOrder H bk oid =
     (case OrderBook.orders bk oid of
        None \<Rightarrow> (False, bk)
      | Some x \<Rightarrow>
          (let ord = H x;
               bk1 = bk\<lparr>OrderBook.orders := (OrderBook.orders bk)(oid := None)\<rparr>;
               bk2 = (if Order.side ord = ''BUY''
                      then bk1\<lparr>OrderBook.buyOrders := remove_from_side x (Order.price ord) (OrderBook.buyOrders bk1)\<rparr>
                      else if Order.side ord = ''SELL''
                      then bk1\<lparr>OrderBook.sellOrders := remove_from_side x (Order.price ord) (OrderBook.sellOrders bk1)\<rparr>
                      else bk1)
           in (True, bk2\<lparr>OrderBook.totalOrders := OrderBook.totalOrders bk2 - 1,
                         OrderBook.totalVolume := OrderBook.totalVolume bk2 - word_of_int (Order.quantity ord)\<rparr>)))"

text \<open>
  \<open>OrderBook::updateOrder\<close> (OrderBook.cpp 107-132). For an unknown id it returns
  false right after the lookup. For a known id it calls \<open>removeOrder\<close> while it holds
  \<open>orderBookMutex_\<close> exclusively, and \<open>removeOrder\<close> locks the same mutex first: the
  C++ standard leaves that undefined (a deadlock, or \<open>std::system_error\<close>), so the model
  stops there with an error and does not invent a result.
\<close>

definition updateOrder :: "heap \<Rightarrow> OrderBook \<Rightarrow> order_ptr \<Rightarrow> error + (bool \<times> OrderBook)" where
  "updateOrder H bk x =
     (case OrderBook.orders bk (Order.orderId (H x)) of
        None \<Rightarrow> Inr (False, bk)
      | Some old \<Rightarrow> Inl RelockOwnedMutex)"

text \<open>
  What a trade takes from outside the book: the text of \<open>std::time(nullptr)\<close> and the
  reading of \<open>system_clock::now()\<close>.
\<close>

record env =
  time_text :: string
  clock_now :: int

text \<open>The trade both matchers build, from the taker and the front order of the best level.\<close>

definition make_trade :: "env \<Rightarrow> Order \<Rightarrow> real \<Rightarrow> Order \<Rightarrow> Trade" where
  "make_trade e taker levelPrice maker =
     (let q = min (Order.quantity taker) (Order.quantity maker)
      in \<lparr> Trade.tradeId = ''trade_'' @ time_text e,
           Trade.orderId = Order.orderId taker,
           Trade.userId = Order.userId taker,
           Trade.symbol = Order.symbol taker,
           Trade.side = Order.side taker,
           Trade.quantity = q,
           Trade.price = levelPrice,
           Trade.totalValue = real_of_int q * levelPrice,
           Trade.executedAt = clock_now e \<rparr>)"

text \<open>\<open>OrderBook::matchBuyOrder\<close> (OrderBook.cpp 163-195).\<close>

definition matchBuyOrder :: "env \<Rightarrow> heap \<Rightarrow> OrderBook \<Rightarrow> order_ptr \<Rightarrow> error + Trade list" where
  "matchBuyOrder e H bk x =
     (case OrderBook.sellOrders bk of
        [] \<Rightarrow> Inr []
      | (bestAskPrice, makers) # _ \<Rightarrow>
          (if Order.price (H x) \<ge> bestAskPrice
           then (case makers of
                   [] \<Rightarrow> Inl EmptyLevelRead
                 | m # _ \<Rightarrow> Inr [make_trade e (H x) bestAskPrice (H m)])
           else Inr []))"

text \<open>\<open>OrderBook::matchSellOrder\<close> (OrderBook.cpp 197-229).\<close>

definition matchSellOrder :: "env \<Rightarrow> heap \<Rightarrow> OrderBook \<Rightarrow> order_ptr \<Rightarrow> error + Trade list" where
  "matchSellOrder e H bk x =
     (case OrderBook.buyOrders bk of
        [] \<Rightarrow> Inr []
      | (bestBidPrice, makers) # _ \<Rightarrow>
          (if Order.price (H x) \<le> bestBidPrice
           then (case makers of
                   [] \<Rightarrow> Inl EmptyLevelRead
                 | m # _ \<Rightarrow> Inr [make_trade e (H x) bestBidPrice (H m)])
           else Inr []))"

text \<open>\<open>OrderBook::matchOrder\<close> (OrderBook.cpp 134-161).\<close>

definition matchOrder :: "env \<Rightarrow> heap \<Rightarrow> OrderBook \<Rightarrow> order_ptr \<Rightarrow> error + (Trade list \<times> OrderBook)" where
  "matchOrder e H bk x =
     (case (if Order.side (H x) = ''BUY'' then matchBuyOrder e H bk x
            else if Order.side (H x) = ''SELL'' then matchSellOrder e H bk x
            else Inr []) of
        Inl err \<Rightarrow> Inl err
      | Inr trades \<Rightarrow>
          Inr (trades,
               if trades \<noteq> [] then bk\<lparr>OrderBook.lastTradePrice := Trade.price (last trades)\<rparr> else bk))"

text \<open>The inline getters of OrderBook.h and \<open>OrderBook::getSpread\<close> (OrderBook.cpp 231-242).\<close>

definition getBestBid :: "OrderBook \<Rightarrow> real" where
  "getBestBid bk = OrderBook.bestBid bk"

definition getBestAsk :: "OrderBook \<Rightarrow> real" where
  "getBestAsk bk = OrderBook.bestAsk bk"

definition getSpread :: "OrderBook \<Rightarrow> real" where
  "getSpread bk =
     (let bid = OrderBook.bestBid bk; ask = OrderBook.bestAsk bk
      in if bid > 0 \<and> ask > 0 then ask - bid else 0)"

definition getOrderCount :: "OrderBook \<Rightarrow> 64 word" where
  "getOrderCount bk = OrderBook.totalOrders bk"

subsection \<open>Sequences of operations\<close>

text \<open>
  A caller's request to the book. A sequence of requests runs against one heap (the
  orders handed to the book are not changed by the caller afterwards) and stops at the
  first error.
\<close>

datatype book_op =
    AddOrder order_ptr
  | RemoveOrder string
  | UpdateOrder order_ptr
  | MatchOrder env order_ptr

fun apply_op :: "heap \<Rightarrow> OrderBook \<Rightarrow> book_op \<Rightarrow> error + OrderBook" where
  "apply_op H bk (AddOrder x) = Inr (snd (addOrder H bk x))"
| "apply_op H bk (RemoveOrder oid) = Inr (snd (removeOrder H bk oid))"
| "apply_op H bk (UpdateOrder x) = map_sum id snd (updateOrder H bk x)"
| "apply_op H bk (MatchOrder e x) = map_sum id snd (matchOrder e H bk x)"

fun apply_ops :: "heap \<Rightarrow> OrderBook \<Rightarrow> book_op list \<Rightarrow> error + OrderBook" where
  "apply_ops H bk [] = Inr bk"
| "apply_ops H bk (c # cs) =
     (case apply_op H bk c of Inl err \<Rightarrow> Inl err | Inr bk' \<Rightarrow> apply_ops H bk' cs)"

subsection \<open>The claims' vocabulary\<close>

text \<open>
  The levels an incoming order is matched against, and the best of them: \<open>begin()\<close>
  of the sell side for a BUY, of the buy side for a SELL.
\<close>

definition opposing_levels :: "heap \<Rightarrow> OrderBook \<Rightarrow> order_ptr \<Rightarrow> level list" where
  "opposing_levels H bk x =
     (if Order.side (H x) = ''BUY'' then OrderBook.sellOrders bk
      else if Order.side (H x) = ''SELL'' then OrderBook.buyOrders bk
      else [])"

definition best_opposing :: "heap \<Rightarrow> OrderBook \<Rightarrow> order_ptr \<Rightarrow> level option" where
  "best_opposing H bk x = (case opposing_levels H bk x of [] \<Rightarrow> None | l # _ \<Rightarrow> Some l)"

text \<open>A taker of side \<open>sd\<close> and price \<open>P\<close> crosses a level of price \<open>L\<close>.\<close>

definition crosses :: "string \<Rightarrow> real \<Rightarrow> real \<Rightarrow> bool" where
  "crosses sd P L = ((sd = ''BUY'' \<and> P \<ge> L) \<or> (sd = ''SELL'' \<and> P \<le> L))"

definition crossing_level_remains :: "heap \<Rightarrow> OrderBook \<Rightarrow> order_ptr \<Rightarrow> bool" where
  "crossing_level_remains H bk x =
     (case best_opposing H bk x of
        None \<Rightarrow> False
      | Some (L, _) \<Rightarrow> crosses (Order.side (H x)) (Order.price (H x)) L)"

definition traded_quantity :: "Trade list \<Rightarrow> int" where
  "traded_quantity ts = sum_list (map Trade.quantity ts)"

text \<open>The taker is fully filled by the trades \<open>ts\<close>.\<close>

definition fully_filled :: "heap \<Rightarrow> order_ptr \<Rightarrow> Trade list \<Rightarrow> bool" where
  "fully_filled H x ts = (traded_quantity ts = Order.quantity (H x))"

text \<open>The orders resting at price \<open>p\<close> on a side: none when the side has no such level.\<close>

definition level_at :: "real \<Rightarrow> level list \<Rightarrow> order_ptr list" where
  "level_at p ls = (case level_find p ls of None \<Rightarrow> [] | Some v \<Rightarrow> v)"

text \<open>
  The book at rest is not crossed: with both sides non-empty, the best bid is strictly
  below the best ask.
\<close>

definition uncrossed :: "OrderBook \<Rightarrow> bool" where
  "uncrossed bk =
     (case (OrderBook.buyOrders bk, OrderBook.sellOrders bk) of
        ((bid, _) # _, (ask, _) # _) \<Rightarrow> bid < ask
      | _ \<Rightarrow> True)"

text \<open>
  What \<open>std::map\<close> maintains by construction: keys in strictly descending order on
  the buy side and strictly ascending order on the sell side.
\<close>

definition sides_sorted :: "OrderBook \<Rightarrow> bool" where
  "sides_sorted bk =
     (sorted_wrt (>) (map fst (OrderBook.buyOrders bk)) \<and>
      sorted_wrt (<) (map fst (OrderBook.sellOrders bk)))"

text \<open>An added order that does not cross the best price of the other side.\<close>

definition rests_without_crossing :: "heap \<Rightarrow> OrderBook \<Rightarrow> order_ptr \<Rightarrow> bool" where
  "rests_without_crossing H bk x = (\<not> crossing_level_remains H bk x)"

text \<open>
  A sequence of requests in which every \<open>addOrder\<close> rests without crossing, judged
  on the book as it is when the request arrives.
\<close>

fun adds_rest_without_crossing :: "heap \<Rightarrow> OrderBook \<Rightarrow> book_op list \<Rightarrow> bool" where
  "adds_rest_without_crossing H bk [] = True"
| "adds_rest_without_crossing H bk (c # cs) =
     ((case c of AddOrder x \<Rightarrow> rests_without_crossing H bk x | _ \<Rightarrow> True) \<and>
      (case apply_op H bk c of Inl err \<Rightarrow> True | Inr bk' \<Rightarrow> adds_rest_without_crossing H bk' cs))"

subsection \<open>Example orders and books\<close>

definition order1 :: Order where
  "order1 =
     \<lparr> Order.orderId = ''o1'', Order.userId = ''u1'', Order.symbol = ''AAPL'',
       Order.side = ''BUY'', Order.quantity = 100, Order.price = 10, Order.isActive = True \<rparr>"

text \<open>A BUY of quantity 0 at price -1.\<close>

definition order_nonpositive :: Order where
  "order_nonpositive =
     \<lparr> Order.orderId = ''bad'', Order.userId = ''u1'', Order.symbol = ''AAPL'',
       Order.side = ''BUY'', Order.quantity = 0, Order.price = - 1, Order.isActive = True \<rparr>"

text \<open>
  Four orders at the addresses 1 to 4: SELL 10 at 20, SELL 5 at 21, the taker BUY 12 at 25
  and a taker BUY 0 at 25. Every other address holds \<open>order1\<close>.
\<close>

definition sell_10_at_20 :: Order where
  "sell_10_at_20 =
     \<lparr> Order.orderId = ''s1'', Order.userId = ''u1'', Order.symbol = ''AAPL'',
       Order.side = ''SELL'', Order.quantity = 10, Order.price = 20, Order.isActive = True \<rparr>"

definition sell_5_at_21 :: Order where
  "sell_5_at_21 =
     \<lparr> Order.orderId = ''s2'', Order.userId = ''u2'', Order.symbol = ''AAPL'',
       Order.side = ''SELL'', Order.quantity = 5, Order.price = 21, Order.isActive = True \<rparr>"

definition buy_12_at_25 :: Order where
  "buy_12_at_25 =
     \<lparr> Order.orderId = ''b1'', Order.userId = ''u3'', Order.symbol = ''AAPL'',
       Order.side = ''BUY'', Order.quantity = 12, Order.price = 25, Order.isActive = True \<rparr>"

definition buy_0_at_25 :: Order where
  "buy_0_at_25 =
     \<lparr> Order.orderId = ''b0'', Order.userId = ''u4'', Order.symbol = ''AAPL'',
       Order.side = ''BUY'', Order.quantity = 0, Order.price = 25, Order.isActive = True \<rparr>"

definition heap3 :: heap where
  "heap3 a =
     (if a = 1 then sell_10_at_20 else if a = 2 then sell_5_at_21
      else if a = 3 then buy_12_at_25 else if a = 4 then buy_0_at_25 else order1)"

text \<open>The book after \<open>addOrder\<close> of the two SELL orders.\<close>

definition book_two_asks :: OrderBook where
  "book_two_asks = snd (addOrder heap3 (snd (addOrder heap3 (OrderBook_ctor ''AAPL'') 1)) 2)"

definition env0 :: env where
  "env0 = \<lparr> time_text = ''1700000000'', clock_now = 1700000000 \<rparr>"

text \<open>Every bid price is below every ask price.\<close>

definition separated :: "OrderBook \<Rightarrow> bool" where
  "separated bk =
     (\<forall>b \<in> set (map fst (OrderBook.buyOrders bk)).
        \<forall>a \<in> set (map fst (OrderBook.sellOrders bk)). b < a)"

text \<open>The books that the example sequences of requests end in.\<close>

definition book_crossed :: OrderBook where
  "book_crossed = (snd (addOrder heap3 book_two_asks 3))\<lparr>OrderBook.lastTradePrice := 20\<rparr>"

definition book_resting :: OrderBook where
  "book_resting = snd (addOrder heap3 book_two_asks 5)"

section \<open>The market-data store (MarketDataStore.h)\<close>

text \<open>
  The store is modelled as one thread sees it: every atomic operation is a plain read or
  write, and \<open>compare_exchange_strong(expected = false, true)\<close> succeeds exactly when
  the flag is false. Interleavings of several threads are outside the model.
\<close>

subsection \<open>C strings\<close>

definition NUL :: char where
  "NUL = CHR 0x00"

text \<open>
  A string passed to a C function is read from the list up to its first NUL; past the
  end of the list the terminator of \<open>c_str()\<close> is read.
\<close>

definition c_str :: "string \<Rightarrow> string" where
  "c_str s = takeWhile (\<lambda>c. c \<noteq> NUL) s"

text \<open>
  \<open>strncpy(dest, src, n)\<close>: at most \<open>n\<close> bytes of the source up to its terminator,
  padded with NULs to \<open>n\<close> bytes; the rest of \<open>dest\<close> is kept.
\<close>

definition strncpy :: "string \<Rightarrow> string \<Rightarrow> nat \<Rightarrow> string" where
  "strncpy dest src n =
     (let c = take n (c_str src)
      in c @ replicate (n - length c) NUL @ drop n dest)"

text \<open>
  \<open>strncmp(a, b, n)\<close>: bytes are compared as \<open>unsigned char\<close>, up to \<open>n\<close> of them and
  not beyond a NUL. Only the sign of the result is specified by C.
\<close>

fun strncmp :: "string \<Rightarrow> string \<Rightarrow> nat \<Rightarrow> int" where
  "strncmp a b 0 = 0"
| "strncmp a b (Suc n) =
     (let ca = (case a of [] \<Rightarrow> NUL | c # _ \<Rightarrow> c);
          cb = (case b of [] \<Rightarrow> NUL | c # _ \<Rightarrow> c)
      in if ca \<noteq> cb then (if (of_char ca :: nat) < of_char cb then - 1 else 1)
         else if ca = NUL then 0
         else strncmp (tl a) (tl b) n)"

subsection \<open>SymbolIndex\<close>

definition MAX_SYMBOLS :: nat where
  "MAX_SYMBOLS = 10000"

definition SYMBOL_LENGTH :: nat where
  "SYMBOL_LENGTH = 8"

definition UINT32_MAX :: "32 word" where
  "UINT32_MAX = 0xFFFFFFFF"

text \<open>\<open>struct SymbolEntry\<close>; \<open>symbol\<close> is the array \<open>char symbol[SYMBOL_LENGTH]\<close>.\<close>

record SymbolEntry =
  symbol :: string
  index :: "32 word"
  isActive :: bool

text \<open>
  \<open>class SymbolIndex\<close>: \<open>symbolTable_\<close> is read and written at positions below
  \<open>MAX_SYMBOLS\<close> only, since every position is taken modulo \<open>MAX_SYMBOLS\<close>.
\<close>

record SymbolIndex =
  symbolTable :: "nat \<Rightarrow> SymbolEntry"
  nextIndex :: "32 word"

text \<open>
  A new table. The bytes of \<open>symbol\<close> are not initialised by the source; they are read
  only in entries whose flag is set, after \<open>strncpy\<close> has written them. The model
  fills them with NULs.
\<close>

definition SymbolIndex_ctor :: SymbolIndex where
  "SymbolIndex_ctor =
     \<lparr> symbolTable =
         (\<lambda>_. \<lparr> SymbolEntry.symbol = replicate SYMBOL_LENGTH NUL,
                 SymbolEntry.index = 0, SymbolEntry.isActive = False \<rparr>),
       nextIndex = 0 \<rparr>"

text \<open>
  The two statements that copy the symbol into a claimed entry:
  \<open>strncpy(entry.symbol, symbol.c_str(), SYMBOL_LENGTH - 1)\<close> and
  \<open>entry.symbol[SYMBOL_LENGTH - 1] = 0\<close>.
\<close>

definition copy_symbol :: "string \<Rightarrow> string \<Rightarrow> string" where
  "copy_symbol dest symb = (strncpy dest symb (SYMBOL_LENGTH - 1))[SYMBOL_LENGTH - 1 := NUL]"

text \<open>
  The probing loop of \<open>SymbolIndex::getOrCreateIndex\<close> (MarketDataStore.h 67-92),
  from iteration \<open>i\<close>; \<open>h\<close> is \<open>std::hash(symbol) % MAX_SYMBOLS\<close>.
\<close>

function getOrCreateIndex_loop :: "nat \<Rightarrow> string \<Rightarrow> SymbolIndex \<Rightarrow> nat \<Rightarrow> 32 word \<times> SymbolIndex" where
  "getOrCreateIndex_loop h symb st i =
     (if i < MAX_SYMBOLS
      then (let idx = (h + i) mod MAX_SYMBOLS;
                entry = symbolTable st idx
            in if \<not> SymbolEntry.isActive entry
               then (let newIndex = nextIndex st;
                         entry' = entry\<lparr> SymbolEntry.isActive := True,
                                        SymbolEntry.symbol := copy_symbol (SymbolEntry.symbol entry) symb,
                                        SymbolEntry.index := newIndex \<rparr>
                     in (newIndex, st\<lparr> symbolTable := (symbolTable st)(idx := entry'),
                                      nextIndex := nextIndex st + 1 \<rparr>))
               else if strncmp (SymbolEntry.symbol entry) symb (SYMBOL_LENGTH - 1) = 0
               then (SymbolEntry.index entry, st)
               else getOrCreateIndex_loop h symb st (i + 1))
      else (UINT32_MAX, st))"
  by pat_completeness auto
termination
  by (relation "measure (\<lambda>(h, symb, st, i). MAX_SYMBOLS - i)") auto

declare getOrCreateIndex_loop.simps [simp del]

text \<open>
  \<open>SymbolIndex::getOrCreateIndex\<close> (MarketDataStore.h 62-95). \<open>std::hash<std::string>\<close>
  is the standard library's and is not fixed by the language: it is the parameter
  \<open>std_hash\<close>.
\<close>

definition getOrCreateIndex :: "(string \<Rightarrow> nat) \<Rightarrow> SymbolIndex \<Rightarrow> string \<Rightarrow> 32 word \<times> SymbolIndex" where
  "getOrCreateIndex std_hash st symb = getOrCreateIndex_loop (std_hash symb mod MAX_SYMBOLS) symb st 0"

text \<open>The loop of \<open>SymbolIndex::getIndex\<close> (MarketDataStore.h 101-111).\<close>

function getIndex_loop :: "nat \<Rightarrow> string \<Rightarrow> SymbolIndex \<Rightarrow> nat \<Rightarrow> 32 word" where
  "getIndex_loop h symb st i =
     (if i < MAX_SYMBOLS
      then (let idx = (h + i) mod MAX_SYMBOLS;
                entry = symbolTable st idx
            in if SymbolEntry.isActive entry \<and>
                  strncmp (SymbolEntry.symbol entry) symb (SYMBOL_LENGTH - 1) = 0
               then SymbolEntry.index entry
               else getIndex_loop h symb st (i + 1))
      else UINT32_MAX)"
  by pat_completeness auto
termination
  by (relation "measure (\<lambda>(h, symb, st, i). MAX_SYMBOLS - i)") auto

declare getIndex_loop.simps [simp del]

text \<open>\<open>SymbolIndex::getIndex\<close> (MarketDataStore.h 97-114).\<close>

definition getIndex :: "(string \<Rightarrow> nat) \<Rightarrow> SymbolIndex \<Rightarrow> string \<Rightarrow> 32 word" where
  "getIndex std_hash st symb = getIndex_loop (std_hash symb mod MAX_SYMBOLS) symb st 0"

subsection \<open>MarketDataStore\<close>

text \<open>\<open>struct MarketDataSnapshot\<close>, without its padding.\<close>

record MarketDataSnapshot =
  bestBid :: real
  bestAsk :: real
  lastPrice :: real
  spread :: real
  volume :: int
  timestamp :: "64 word"
  sequenceNumber :: "32 word"
  isValid :: bool

record MarketDataStore =
  marketData :: "nat \<Rightarrow> MarketDataSnapshot"
  symbolIndex :: SymbolIndex
  totalUpdates :: "64 word"
  totalReads :: "64 word"

definition MarketDataStore_ctor :: MarketDataStore where
  "MarketDataStore_ctor =
     \<lparr> marketData =
         (\<lambda>_. \<lparr> MarketDataSnapshot.bestBid = 0, MarketDataSnapshot.bestAsk = 0,
                 MarketDataSnapshot.lastPrice = 0, MarketDataSnapshot.spread = 0,
                 MarketDataSnapshot.volume = 0, MarketDataSnapshot.timestamp = 0,
                 MarketDataSnapshot.sequenceNumber = 0, MarketDataSnapshot.isValid = False \<rparr>),
       symbolIndex = SymbolIndex_ctor,
       totalUpdates = 0,
       totalReads = 0 \<rparr>"

text \<open>
  \<open>MarketDataStore::updateMarketData\<close> (MarketDataStore.h 155-189). \<open>now\<close> is the
  reading of \<open>high_resolution_clock\<close> in nanoseconds, as the unsigned 64-bit value that
  is stored. The symbol table keeps what \<open>getOrCreateIndex\<close> did to it also when the
  update returns false.
\<close>

definition updateMarketData ::
  "(string \<Rightarrow> nat) \<Rightarrow> 64 word \<Rightarrow> MarketDataStore \<Rightarrow> string \<Rightarrow> real \<Rightarrow> real \<Rightarrow> real \<Rightarrow> int
     \<Rightarrow> bool \<times> MarketDataStore" where
  "updateMarketData std_hash now store symb bid ask lp vol =
     (let (idx, si) = getOrCreateIndex std_hash (symbolIndex store) symb;
          store1 = store\<lparr>symbolIndex := si\<rparr>
      in if unat idx \<ge> MAX_SYMBOLS then (False, store1)
         else (let snapshot = marketData store1 (unat idx);
                   snapshot' = snapshot\<lparr> MarketDataSnapshot.bestBid := bid,
                                         MarketDataSnapshot.bestAsk := ask,
                                         MarketDataSnapshot.lastPrice := lp,
                                         MarketDataSnapshot.volume := vol,
                                         MarketDataSnapshot.spread := ask - bid,
                                         MarketDataSnapshot.timestamp := now,
                                         MarketDataSnapshot.sequenceNumber :=
                                           MarketDataSnapshot.sequenceNumber snapshot + 1,
                                         MarketDataSnapshot.isValid := True \<rparr>
               in (True, store1\<lparr> marketData := (marketData store1)(unat idx := snapshot'),
                                 totalUpdates := totalUpdates store1 + 1 \<rparr>)))"

text \<open>What \<open>getMarketData\<close> writes through its six reference parameters.\<close>

record MarketDataOut =
  out_bestBid :: real
  out_bestAsk :: real
  out_lastPrice :: real
  out_spread :: real
  out_volume :: int
  out_timestamp :: "64 word"

text \<open>
  \<open>MarketDataStore::getMarketData\<close> (MarketDataStore.h 195-223): \<open>None\<close> is the
  result false, with the reference parameters untouched.
\<close>

definition getMarketData ::
  "(string \<Rightarrow> nat) \<Rightarrow> MarketDataStore \<Rightarrow> string \<Rightarrow> MarketDataOut option \<times> MarketDataStore" where
  "getMarketData std_hash store symb =
     (let idx = getIndex std_hash (symbolIndex store) symb
      in if unat idx \<ge> MAX_SYMBOLS then (None, store)
         else (let snapshot = marketData store (unat idx)
               in if \<not> MarketDataSnapshot.isValid snapshot then (None, store)
                  else (Some \<lparr> out_bestBid = MarketDataSnapshot.bestBid snapshot,
                               out_bestAsk = MarketDataSnapshot.bestAsk snapshot,
                               out_lastPrice = MarketDataSnapshot.lastPrice snapshot,
                               out_spread = MarketDataSnapshot.spread snapshot,
                               out_volume = MarketDataSnapshot.volume snapshot,
                               out_timestamp = MarketDataSnapshot.timestamp snapshot \<rparr>,
                        store\<lparr>totalReads := totalReads store + 1\<rparr>)))"

subsection \<open>Notions for the claims about the store, and examples\<close>

text \<open>The key comparison both lookups make: \<open>strncmp(entry.symbol, symbol.c_str(), SYMBOL_LENGTH - 1) == 0\<close>.\<close>

definition key_matches :: "SymbolEntry \<Rightarrow> string \<Rightarrow> bool" where
  "key_matches entry symb = (strncmp (SymbolEntry.symbol entry) symb (SYMBOL_LENGTH - 1) = 0)"

text \<open>The table after the branch of \<open>getOrCreateIndex\<close> that claims the free slot \<open>j\<close>.\<close>

definition claim_slot :: "SymbolIndex \<Rightarrow> nat \<Rightarrow> string \<Rightarrow> SymbolIndex" where
  "claim_slot st j symb =
     st\<lparr> symbolTable := (symbolTable st)
            (j := (symbolTable st j)\<lparr> SymbolEntry.isActive := True,
                    SymbolEntry.symbol := copy_symbol (SymbolEntry.symbol (symbolTable st j)) symb,
                    SymbolEntry.index := nextIndex st \<rparr>),
         nextIndex := nextIndex st + 1 \<rparr>"




text \<open>
  A hash function for the examples: the code of the last byte. (Any function is a possible
  \<open>std::hash\<close>; this one sends symbols that differ in their last byte to different slots.)
\<close>

definition hash_last :: "string \<Rightarrow> nat" where
  "hash_last s = (case rev s of [] \<Rightarrow> 0 | c # _ \<Rightarrow> of_char c)"

text \<open>Two successive updates of one symbol, at the clock readings 1000 and 2000.\<close>

definition store_after_first :: MarketDataStore where
  "store_after_first =
     snd (updateMarketData hash_last 1000 MarketDataStore_ctor ''AAPL'' 1 2 (3 / 2) 100)"

definition store_after_second :: MarketDataStore where
  "store_after_second =
     snd (updateMarketData hash_last 2000 store_after_first ''AAPL'' 3 5 4 200)"

text \<open>The same two updates with the clock reading 2000 before the reading 1000.\<close>

definition store_late_first :: MarketDataStore where
  "store_late_first =
     snd (updateMarketData hash_last 2000 MarketDataStore_ctor ''AAPL'' 1 2 (3 / 2) 100)"

definition store_late_second :: MarketDataStore where
  "store_late_second =
     snd (updateMarketData hash_last 1000 store_late_first ''AAPL'' 3 5 4 200)"


text \<open>Two symbols of 8 bytes that differ in the last byte only, updated one after the other.\<close>

definition symbol_a :: string where
  "symbol_a = ''ABCDEFGH''"

definition symbol_b :: string where
  "symbol_b = ''ABCDEFGI''"

definition store_a :: MarketDataStore where
  "store_a = snd (updateMarketData hash_last 1000 MarketDataStore_ctor symbol_a 1 2 (3 / 2) 100)"

definition store_ab :: MarketDataStore where
  "store_ab = snd (updateMarketData hash_last 2000 store_a symbol_b 3 5 4 200)"

section \<open>The quote decoder (FastJsonParser.h, FastJsonParser.cpp)\<close>

text \<open>
  The decoder works on \<open>jsonResponse.c_str()\<close> with C string functions: a pointer into
  the text is the list of the bytes from there to the terminator. The parser's
  performance counters are left out.
\<close>

subsection \<open>Library functions\<close>

definition DQUOTE :: char where
  "DQUOTE = CHR 0x22"

fun starts_with :: "string \<Rightarrow> string \<Rightarrow> bool" where
  "starts_with s [] = True"
| "starts_with [] (p # ps) = False"
| "starts_with (c # cs) (p # ps) = (c = p \<and> starts_with cs ps)"

text \<open>\<open>strstr\<close>: the text from the first occurrence of the needle on, if there is one.\<close>

fun strstr :: "string \<Rightarrow> string \<Rightarrow> string option" where
  "strstr [] needle = (if needle = [] then Some [] else None)"
| "strstr (c # cs) needle =
     (if starts_with (c # cs) needle then Some (c # cs) else strstr cs needle)"

text \<open>\<open>strchr\<close> for a character other than NUL.\<close>

fun strchr :: "string \<Rightarrow> char \<Rightarrow> string option" where
  "strchr [] ch = None"
| "strchr (c # cs) ch = (if c = ch then Some (c # cs) else strchr cs ch)"

text \<open>
  \<open>std::string::front\<close>. The standard requires a non-empty string; on an empty one the
  implementations read the terminator, which is what the model returns.
\<close>

definition front :: "string \<Rightarrow> char" where
  "front s = (case s of [] \<Rightarrow> NUL | c # _ \<Rightarrow> c)"

text \<open>\<open>s.substr(pos, n)\<close> for \<open>pos\<close> within the string.\<close>

definition substr :: "string \<Rightarrow> nat \<Rightarrow> nat \<Rightarrow> string" where
  "substr s pos n = take n (drop pos s)"

definition is_space :: "char \<Rightarrow> bool" where
  "is_space c = (c = CHR '' '' \<or> c = CHR 0x09 \<or> c = CHR 0x0A \<or> c = CHR 0x0B \<or>
                 c = CHR 0x0C \<or> c = CHR 0x0D)"

definition is_digit :: "char \<Rightarrow> bool" where
  "is_digit c = (48 \<le> (of_char c :: nat) \<and> (of_char c :: nat) \<le> 57)"

definition digits_value :: "string \<Rightarrow> nat" where
  "digits_value ds = foldl (\<lambda>acc c. 10 * acc + (of_char c - 48)) 0 ds"

text \<open>An optional sign: whether it is a minus, and the rest.\<close>

definition read_sign :: "string \<Rightarrow> bool \<times> string" where
  "read_sign s =
     (case s of
        [] \<Rightarrow> (False, [])
      | c # r \<Rightarrow> if c = CHR ''-'' then (True, r) else if c = CHR ''+'' then (False, r) else (False, s))"

text \<open>
  The exponent part of a decimal floating literal: \<open>e\<close> or \<open>E\<close>, an optional sign and
  at least one digit; 0 when there is none.
\<close>

definition read_exponent :: "string \<Rightarrow> int" where
  "read_exponent s =
     (case s of
        [] \<Rightarrow> 0
      | c # r \<Rightarrow>
          if c = CHR ''e'' \<or> c = CHR ''E''
          then (let (neg, r') = read_sign r; ds = takeWhile is_digit r'
                in if ds = [] then 0
                   else if neg then - int (digits_value ds) else int (digits_value ds))
          else 0)"

definition DBL_MAX :: real where
  "DBL_MAX = (2 - 1 / 2 ^ 52) * 2 ^ 1023"

definition DBL_MIN :: real where
  "DBL_MIN = 1 / 2 ^ 1022"

text \<open>
  \<open>std::stod\<close> on decimal input: leading white space, an optional sign, digits with an
  optional fraction, an optional exponent; text after the number is ignored. Without any
  digit it throws \<open>std::invalid_argument\<close>, beyond the range of \<open>double\<close>
  \<open>std::out_of_range\<close>. The result is the exact decimal value (no rounding). Inputs
  whose outcome the model cannot express give \<open>Unmodelled\<close>, which nothing below
  treats as an exception: the other forms that \<open>strtod\<close> accepts (hexadecimal,
  \<open>inf\<close>, \<open>nan\<close>), and non-zero values below the smallest normal \<open>double\<close>, where
  it is left to the implementation whether \<open>strtod\<close> reports a range error.
\<close>

definition stod :: "string \<Rightarrow> error + real" where
  "stod str =
     (let (neg, s2) = read_sign (dropWhile is_space str);
          ip = takeWhile is_digit s2;
          s3 = dropWhile is_digit s2;
          fp = (case s3 of [] \<Rightarrow> [] | c # r \<Rightarrow> if c = CHR ''.'' then takeWhile is_digit r else []);
          s4 = (case s3 of [] \<Rightarrow> [] | c # r \<Rightarrow> if c = CHR ''.'' then dropWhile is_digit r else s3)
      in if (case s2 of [] \<Rightarrow> False
             | c # r \<Rightarrow> c \<in> set ''iInN'' \<or> (c = CHR ''0'' \<and> (case r of [] \<Rightarrow> False | d # _ \<Rightarrow> d \<in> set ''xX'')))
         then Inl Unmodelled
         else if ip = [] \<and> fp = [] then Inl InvalidArgument
         else (let m = real (digits_value ip) + real (digits_value fp) / 10 ^ length fp;
                   ex = read_exponent s4;
                   v = (if ex \<ge> 0 then m * 10 ^ nat ex else m / 10 ^ nat (- ex))
               in if v > DBL_MAX then Inl OutOfRange
                  else if 0 < v \<and> v < DBL_MIN then Inl Unmodelled
                  else Inr (if neg then - v else v)))"

text \<open>\<open>std::stol\<close> in base 10; \<open>long\<close> has 64 bits.\<close>

definition stol :: "string \<Rightarrow> error + int" where
  "stol str =
     (let (neg, s2) = read_sign (dropWhile is_space str);
          ds = takeWhile is_digit s2
      in if ds = [] then Inl InvalidArgument
         else (let v = (if neg then - int (digits_value ds) else int (digits_value ds))
               in if v < - (2 ^ 63) \<or> v > 2 ^ 63 - 1 then Inl OutOfRange else Inr v))"

subsection \<open>FastJsonParser\<close>

text \<open>
  \<open>struct FastJsonParser::MarketData\<close>, with the default member initialisers. The
  member \<open>open\<close> is the field \<open>openPrice\<close>.
\<close>

record MarketData =
  symbol :: string
  bestBid :: real
  bestAsk :: real
  lastPrice :: real
  openPrice :: real
  high :: real
  low :: real
  volume :: int
  timestamp :: "64 word"
  isValid :: bool

definition MarketData_default :: MarketData where
  "MarketData_default =
     \<lparr> MarketData.symbol = [], MarketData.bestBid = 0, MarketData.bestAsk = 0,
       MarketData.lastPrice = 0, MarketData.openPrice = 0, MarketData.high = 0, MarketData.low = 0,
       MarketData.volume = 0, MarketData.timestamp = 0, MarketData.isValid = False \<rparr>"

text \<open>
  The part that \<open>extractDouble\<close> and \<open>extractLong\<close> share (FastJsonParser.cpp 104-125
  and 147-168): skip blanks after the colon, take the text up to the first comma, brace,
  bracket, double quote or the terminator, and remove surrounding quotes if present.
  \<open>length() - 2\<close> is computed in \<open>size_t\<close>.
\<close>

definition value_text :: "string \<Rightarrow> string" where
  "value_text colonPos =
     (let valueStart = dropWhile (\<lambda>c. c = CHR '' '' \<or> c = CHR 0x09 \<or> c = CHR 0x0A) (tl colonPos);
          valueStr = takeWhile (\<lambda>c. c \<noteq> CHR '','' \<and> c \<noteq> CHR ''}'' \<and> c \<noteq> CHR '']'' \<and> c \<noteq> DQUOTE) valueStart
      in if front valueStr = DQUOTE \<and> last valueStr = DQUOTE
         then substr valueStr 1 ((length valueStr + 2 ^ 64 - 2) mod 2 ^ 64)
         else valueStr)"

text \<open>
  The search for the key and its colon that opens both functions (FastJsonParser.cpp
  90-102 and 133-145).
\<close>

definition find_value :: "string \<Rightarrow> string \<Rightarrow> error + string" where
  "find_value json key =
     (case strstr json (DQUOTE # key @ [DQUOTE]) of
        None \<Rightarrow> Inl RuntimeError
      | Some keyPos \<Rightarrow>
          (case strchr keyPos (CHR '':'') of
             None \<Rightarrow> Inl RuntimeError
           | Some colonPos \<Rightarrow> Inr (value_text colonPos)))"

text \<open>\<open>FastJsonParser::extractDouble\<close> (FastJsonParser.cpp 88-129).\<close>

definition extractDouble :: "string \<Rightarrow> string \<Rightarrow> error + real" where
  "extractDouble json key = (case find_value json key of Inl e \<Rightarrow> Inl e | Inr v \<Rightarrow> stod v)"

text \<open>\<open>FastJsonParser::extractLong\<close> (FastJsonParser.cpp 131-172).\<close>

definition extractLong :: "string \<Rightarrow> string \<Rightarrow> error + int" where
  "extractLong json key = (case find_value json key of Inl e \<Rightarrow> Inl e | Inr v \<Rightarrow> stol v)"

text \<open>
  The handler \<open>catch (const std::exception &)\<close> of \<open>parseAlphaVantage\<close>: the data as
  far as it was filled in, marked invalid.
\<close>

definition caught :: "error \<Rightarrow> MarketData \<Rightarrow> error + MarketData" where
  "caught e data = (if e = Unmodelled then Inl Unmodelled else Inr (data\<lparr>MarketData.isValid := False\<rparr>))"

text \<open>
  \<open>FastJsonParser::parseAlphaVantage\<close> (FastJsonParser.cpp 10-69); \<open>now\<close> is the
  reading of the clock.
\<close>

definition parseAlphaVantage :: "64 word \<Rightarrow> string \<Rightarrow> string \<Rightarrow> error + MarketData" where
  "parseAlphaVantage now symb jsonResponse =
     (let data0 = MarketData_default\<lparr>MarketData.symbol := symb\<rparr>;
          json = c_str jsonResponse
      in case strstr json (DQUOTE # ''Global Quote'' @ [DQUOTE]) of
           None \<Rightarrow> caught RuntimeError data0
         | Some globalQuote \<Rightarrow>
        (case extractDouble globalQuote ''02. open'' of
           Inl e \<Rightarrow> caught e data0
         | Inr v1 \<Rightarrow> let data1 = data0\<lparr>MarketData.openPrice := v1\<rparr> in
        (case extractDouble globalQuote ''03. high'' of
           Inl e \<Rightarrow> caught e data1
         | Inr v2 \<Rightarrow> let data2 = data1\<lparr>MarketData.high := v2\<rparr> in
        (case extractDouble globalQuote ''04. low'' of
           Inl e \<Rightarrow> caught e data2
         | Inr v3 \<Rightarrow> let data3 = data2\<lparr>MarketData.low := v3\<rparr> in
        (case extractDouble globalQuote ''05. price'' of
           Inl e \<Rightarrow> caught e data3
         | Inr v4 \<Rightarrow> let data4 = data3\<lparr>MarketData.lastPrice := v4\<rparr> in
        (case extractLong globalQuote ''06. volume'' of
           Inl e \<Rightarrow> caught e data4
         | Inr v5 \<Rightarrow>
             Inr (data4\<lparr> MarketData.volume := v5,
                        MarketData.bestBid := MarketData.low data4,
                        MarketData.bestAsk := MarketData.high data4,
                        MarketData.timestamp := now,
                        MarketData.isValid := True \<rparr>)))))))"

text \<open>\<open>FastJsonParser::parseAlphaVantageSafe\<close> (FastJsonParser.cpp 71-86).\<close>

definition parseAlphaVantageSafe :: "64 word \<Rightarrow> string \<Rightarrow> string \<Rightarrow> error + MarketData" where
  "parseAlphaVantageSafe now symb jsonResponse =
     (case parseAlphaVantage now symb jsonResponse of
        Inl e \<Rightarrow> Inl e
      | Inr data \<Rightarrow>
          Inr (if MarketData.isValid data \<and>
                  (MarketData.lastPrice data \<le> 0 \<or> MarketData.volume data < 0)
               then data\<lparr>MarketData.isValid := False\<rparr>
               else data))"

subsection \<open>Example envelopes\<close>

definition envelope_quoted :: string where
  \<open>envelope_quoted =
     ''{"Global Quote":{"02. open":"1","03. high":"2","04. low":"0.5","05. price":"1.5","06. volume":"100"}}''\<close>

definition envelope_numbers :: string where
  \<open>envelope_numbers =
     ''{"Global Quote":{"02. open":1,"03. high":2,"04. low":0.5,"05. price":1.5,"06. volume":100}}''\<close>

section \<open>Properties of the order book\<close>

subsection \<open>The example book\<close>

lemmas example_defs =
  heap3_def sell_10_at_20_def sell_5_at_21_def buy_12_at_25_def buy_0_at_25_def order1_def env0_def

lemma book_two_asks_eq:
  "book_two_asks =
     \<lparr> OrderBook.symbol = ''AAPL'',
       OrderBook.buyOrders = [],
       OrderBook.sellOrders = [(20, [1]), (21, [2])],
       OrderBook.totalOrders = 2,
       OrderBook.totalVolume = 15,
       OrderBook.lastTradePrice = 0,
       OrderBook.orders = [''s1'' \<mapsto> 1, ''s2'' \<mapsto> 2],
       OrderBook.lastPrice = 0,
       OrderBook.bestBid = 0,
       OrderBook.bestAsk = 0 \<rparr>"
  by (simp add: book_two_asks_def addOrder_def heap3_def sell_10_at_20_def sell_5_at_21_def
      OrderBook_ctor_def)

subsection \<open>The cached best ask\<close>

lemma apply_op_bestAsk:
  "apply_op H bk c = Inr bk' \<Longrightarrow> OrderBook.bestAsk bk \<le> 0 \<Longrightarrow> OrderBook.bestAsk bk' \<le> 0"
  by (cases c)
     (auto simp: addOrder_def removeOrder_def updateOrder_def matchOrder_def Let_def
           split: option.splits sum.splits if_splits)

lemma apply_ops_bestAsk:
  "apply_ops H bk cs = Inr bk' \<Longrightarrow> OrderBook.bestAsk bk \<le> 0 \<Longrightarrow> OrderBook.bestAsk bk' \<le> 0"
proof (induction cs arbitrary: bk)
  case Nil
  then show ?case by simp
next
  case (Cons c cs)
  then show ?case
    by (auto split: sum.splits dest: apply_op_bestAsk)
qed

text \<open>
  C10. On a freshly constructed book, a successful \<open>addOrder\<close> of a SELL order with a
  positive price leaves \<open>getBestAsk\<close> at 0 (the minimum of the initial 0 and the
  price), not at the price; and from then on \<open>getSpread\<close> returns 0 after every
  sequence of requests, whatever rests on the two sides.
\<close>

theorem fresh_book_best_ask_stuck_at_zero:
  assumes "Order.side (H x) = ''SELL''" and "0 < Order.price (H x)"
    and "apply_ops H (snd (addOrder H (OrderBook_ctor name) x)) cs = Inr bk"
  shows "fst (addOrder H (OrderBook_ctor name) x) = True \<and>
         getBestAsk (snd (addOrder H (OrderBook_ctor name) x)) = 0 \<and>
         getSpread (snd (addOrder H (OrderBook_ctor name) x)) = 0 \<and>
         getSpread bk = 0"
proof -
  have ask: "OrderBook.bestAsk (snd (addOrder H (OrderBook_ctor name) x)) = 0"
    using assms(1,2) by (simp add: addOrder_def OrderBook_ctor_def Let_def)
  then have "OrderBook.bestAsk bk \<le> 0"
    using apply_ops_bestAsk [OF assms(3)] by simp
  with ask show ?thesis
    by (simp add: getBestAsk_def getSpread_def addOrder_def Let_def)
qed

text \<open>
  The statement for SELL 10 at 20 followed by BUY 12 at 25: orders rest on both sides and
  the spread reads 0.
\<close>

theorem fresh_book_best_ask_stuck_at_zero_witness:
  "Order.side (heap3 1) = ''SELL'' \<and> 0 < Order.price (heap3 1) \<and>
   OrderBook.sellOrders (snd (addOrder heap3 (snd (addOrder heap3 (OrderBook_ctor ''AAPL'') 1)) 3)) = [(20, [1])] \<and>
   OrderBook.buyOrders (snd (addOrder heap3 (snd (addOrder heap3 (OrderBook_ctor ''AAPL'') 1)) 3)) = [(25, [3])] \<and>
   getBestAsk (snd (addOrder heap3 (OrderBook_ctor ''AAPL'') 1)) = 0 \<and>
   getSpread (snd (addOrder heap3 (snd (addOrder heap3 (OrderBook_ctor ''AAPL'') 1)) 3)) = 0"
proof -
  have s: "Order.side (heap3 1) = ''SELL''" and p: "0 < Order.price (heap3 1)"
    by (simp_all add: heap3_def sell_10_at_20_def)
  have r: "apply_ops heap3 (snd (addOrder heap3 (OrderBook_ctor ''AAPL'') 1)) [AddOrder 3]
           = Inr (snd (addOrder heap3 (snd (addOrder heap3 (OrderBook_ctor ''AAPL'') 1)) 3))"
    by simp
  have sides: "OrderBook.sellOrders (snd (addOrder heap3 (snd (addOrder heap3 (OrderBook_ctor ''AAPL'') 1)) 3)) = [(20, [1])] \<and>
   OrderBook.buyOrders (snd (addOrder heap3 (snd (addOrder heap3 (OrderBook_ctor ''AAPL'') 1)) 3)) = [(25, [3])]"
    by (simp add: addOrder_def heap3_def sell_10_at_20_def buy_12_at_25_def OrderBook_ctor_def)
  show ?thesis
    using fresh_book_best_ask_stuck_at_zero [OF s p r] s p sides by simp
qed

subsection \<open>Crossed and uncrossed books\<close>

lemma keys_level_push_desc:
  "set (map fst (level_push (>) p x ls)) = insert p (set (map fst ls))"
proof (induction ls)
  case Nil
  then show ?case by simp
next
  case (Cons l ls)
  then show ?case by (cases l) (simp add: insert_commute)
qed

lemma keys_level_push_asc:
  "set (map fst (level_push (<) p x ls)) = insert p (set (map fst ls))"
proof (induction ls)
  case Nil
  then show ?case by simp
next
  case (Cons l ls)
  then show ?case by (cases l) (simp add: insert_commute)
qed

lemma sorted_level_push_desc:
  "sorted_wrt (>) (map fst ls) \<Longrightarrow> sorted_wrt (>) (map fst (level_push (>) p x ls))"
proof (induction ls)
  case Nil
  then show ?case by simp
next
  case (Cons l ls)
  obtain k v where l: "l = (k, v)" by (cases l)
  from Cons.prems have tl: "sorted_wrt (>) (map fst ls)" and hd: "\<forall>j \<in> set (map fst ls). j < k"
    by (auto simp: l)
  show ?case
  proof (cases "p > k")
    case True
    then show ?thesis using Cons.prems hd by (auto simp: l)
  next
    case False
    show ?thesis
    proof (cases "k > p")
      case True
      have "\<forall>j \<in> set (map fst (level_push (>) p x ls)). j < k"
        using hd True unfolding keys_level_push_desc by auto
      then show ?thesis using True False Cons.IH [OF tl] by (simp add: l)
    next
      case False
      then show ?thesis using \<open>\<not> p > k\<close> Cons.prems by (simp add: l)
    qed
  qed
qed

lemma sorted_level_push_asc:
  "sorted_wrt (<) (map fst ls) \<Longrightarrow> sorted_wrt (<) (map fst (level_push (<) p x ls))"
proof (induction ls)
  case Nil
  then show ?case by simp
next
  case (Cons l ls)
  obtain k v where l: "l = (k, v)" by (cases l)
  from Cons.prems have tl: "sorted_wrt (<) (map fst ls)" and hd: "\<forall>j \<in> set (map fst ls). k < j"
    by (auto simp: l)
  show ?case
  proof (cases "p < k")
    case True
    then show ?thesis using Cons.prems hd by (auto simp: l)
  next
    case False
    show ?thesis
    proof (cases "k < p")
      case True
      have "\<forall>j \<in> set (map fst (level_push (<) p x ls)). k < j"
        using hd True unfolding keys_level_push_asc by auto
      then show ?thesis using True False Cons.IH [OF tl] by (simp add: l)
    next
      case False
      then show ?thesis using \<open>\<not> p < k\<close> Cons.prems by (simp add: l)
    qed
  qed
qed

lemma set_level_erase: "set (level_erase p ls) \<subseteq> set ls"
  by (induction ls) (auto split: if_splits)

lemma keys_level_erase: "set (map fst (level_erase p ls)) \<subseteq> set (map fst ls)"
  using set_level_erase [of p ls] by (simp add: image_mono)

lemma keys_level_store: "map fst (level_store p w ls) = map fst ls"
  by (induction ls) auto

lemma sorted_level_erase:
  "sorted_wrt R (map fst ls) \<Longrightarrow> sorted_wrt R (map fst (level_erase p ls))"
proof (induction ls)
  case Nil
  then show ?case by simp
next
  case (Cons l ls)
  obtain k v where l: "l = (k, v)" by (cases l)
  from Cons.prems have tl: "sorted_wrt R (map fst ls)" and hd: "\<forall>j \<in> set (map fst ls). R k j"
    by (auto simp: l)
  have "\<forall>j \<in> set (map fst (level_erase p ls)). R k j"
    using hd keys_level_erase [of p ls] by blast
  then show ?case using Cons.IH [OF tl] tl by (simp add: l)
qed

lemma keys_remove_from_side:
  "set (map fst (remove_from_side x p ls)) \<subseteq> set (map fst ls)"
proof -
  have "set (map fst (level_store p w ls)) = set (map fst ls)" for w
    by (simp only: keys_level_store)
  then show ?thesis
    using keys_level_erase [of p ls]
    by (simp add: remove_from_side_def Let_def split: option.splits)
qed

lemma sorted_remove_from_side:
  "sorted_wrt R (map fst ls) \<Longrightarrow> sorted_wrt R (map fst (remove_from_side x p ls))"
  by (simp add: remove_from_side_def Let_def sorted_level_erase keys_level_store split: option.splits)

lemma separated_Cons:
  assumes "\<forall>j \<in> set (map fst ls). j < b" and "\<forall>j \<in> set (map fst ms). a < j"
  shows "(\<forall>i \<in> set (map fst ((b, v) # ls)). \<forall>j \<in> set (map fst ((a, w) # ms)). i < j) \<longleftrightarrow> b < (a::real)"
proof
  assume "\<forall>i \<in> set (map fst ((b, v) # ls)). \<forall>j \<in> set (map fst ((a, w) # ms)). i < j"
  then show "b < a" by simp
next
  assume ba: "b < a"
  show "\<forall>i \<in> set (map fst ((b, v) # ls)). \<forall>j \<in> set (map fst ((a, w) # ms)). i < j"
  proof (intro ballI)
    fix i j
    assume "i \<in> set (map fst ((b, v) # ls))" and "j \<in> set (map fst ((a, w) # ms))"
    then have "i \<le> b" and "a \<le> j" using assms by auto
    with ba show "i < j" by linarith
  qed
qed

lemma uncrossed_separated:
  assumes "sides_sorted bk"
  shows "uncrossed bk \<longleftrightarrow> separated bk"
proof (cases "OrderBook.buyOrders bk")
  case Nil
  then show ?thesis by (simp add: uncrossed_def separated_def)
next
  case buy: (Cons l ls)
  obtain b v where l: "l = (b, v)" by (cases l)
  show ?thesis
  proof (cases "OrderBook.sellOrders bk")
    case Nil
    then show ?thesis by (simp add: uncrossed_def separated_def buy l)
  next
    case sell: (Cons m ms)
    obtain a w where m: "m = (a, w)" by (cases m)
    have bs: "\<forall>j \<in> set (map fst ls). j < b" and as: "\<forall>j \<in> set (map fst ms). a < j"
      using assms by (simp_all add: sides_sorted_def buy sell l m)
    have "uncrossed bk \<longleftrightarrow> b < a"
      by (simp add: uncrossed_def buy sell l m)
    moreover have "separated bk \<longleftrightarrow> b < a"
      unfolding separated_def buy sell l m by (rule separated_Cons [OF bs as])
    ultimately show ?thesis by simp
  qed
qed

lemma addOrder_sides_sorted:
  "sides_sorted bk \<Longrightarrow> sides_sorted (snd (addOrder H bk x))"
  by (simp add: sides_sorted_def addOrder_def Let_def sorted_level_push_desc sorted_level_push_asc)

lemma removeOrder_sides_sorted:
  "sides_sorted bk \<Longrightarrow> sides_sorted (snd (removeOrder H bk oid))"
  by (simp add: sides_sorted_def removeOrder_def Let_def sorted_remove_from_side split: option.splits)

lemma removeOrder_keys:
  "set (map fst (OrderBook.buyOrders (snd (removeOrder H bk oid)))) \<subseteq> set (map fst (OrderBook.buyOrders bk)) \<and>
   set (map fst (OrderBook.sellOrders (snd (removeOrder H bk oid)))) \<subseteq> set (map fst (OrderBook.sellOrders bk))"
  using keys_remove_from_side
  by (simp add: removeOrder_def Let_def split: option.splits)

lemma removeOrder_separated:
  assumes "separated bk"
  shows "separated (snd (removeOrder H bk oid))"
  unfolding separated_def
proof (intro ballI)
  fix b a
  assume "b \<in> set (map fst (OrderBook.buyOrders (snd (removeOrder H bk oid))))"
    and "a \<in> set (map fst (OrderBook.sellOrders (snd (removeOrder H bk oid))))"
  then have "b \<in> set (map fst (OrderBook.buyOrders bk))" and "a \<in> set (map fst (OrderBook.sellOrders bk))"
    using removeOrder_keys [of H bk oid] by blast+
  then show "b < a" using assms unfolding separated_def by blast
qed

lemma rests_below_asks:
  assumes "sides_sorted bk" and "rests_without_crossing H bk x" and "Order.side (H x) = ''BUY''"
  shows "\<forall>a \<in> set (map fst (OrderBook.sellOrders bk)). Order.price (H x) < a"
proof (cases "OrderBook.sellOrders bk")
  case Nil
  then show ?thesis by simp
next
  case (Cons m ms)
  obtain a w where m: "m = (a, w)" by (cases m)
  have "Order.price (H x) < a"
    using assms(2,3)
    by (simp add: rests_without_crossing_def crossing_level_remains_def best_opposing_def
        opposing_levels_def crosses_def Cons m)
  moreover have "\<forall>j \<in> set (map fst ms). a < j"
    using assms(1) by (auto simp: sides_sorted_def Cons m)
  ultimately show ?thesis by (auto simp: Cons m)
qed

lemma rests_above_bids:
  assumes "sides_sorted bk" and "rests_without_crossing H bk x" and "Order.side (H x) = ''SELL''"
  shows "\<forall>b \<in> set (map fst (OrderBook.buyOrders bk)). b < Order.price (H x)"
proof (cases "OrderBook.buyOrders bk")
  case Nil
  then show ?thesis by simp
next
  case (Cons m ms)
  obtain b w where m: "m = (b, w)" by (cases m)
  have "b < Order.price (H x)"
    using assms(2,3)
    by (simp add: rests_without_crossing_def crossing_level_remains_def best_opposing_def
        opposing_levels_def crosses_def Cons m)
  moreover have "\<forall>j \<in> set (map fst ms). j < b"
    using assms(1) by (auto simp: sides_sorted_def Cons m)
  ultimately show ?thesis by (auto simp: Cons m)
qed

lemma addOrder_separated:
  assumes "sides_sorted bk" and "separated bk" and "rests_without_crossing H bk x"
  shows "separated (snd (addOrder H bk x))"
proof (cases "Order.side (H x) = ''BUY''")
  case True
  have "set (map fst (OrderBook.buyOrders (snd (addOrder H bk x))))
        = insert (Order.price (H x)) (set (map fst (OrderBook.buyOrders bk)))"
    and "OrderBook.sellOrders (snd (addOrder H bk x)) = OrderBook.sellOrders bk"
    using True keys_level_push_desc by (simp_all add: addOrder_def Let_def)
  then show ?thesis
    using assms(2) rests_below_asks [OF assms(1,3) True] unfolding separated_def by auto
next
  case notbuy: False
  show ?thesis
  proof (cases "Order.side (H x) = ''SELL''")
    case True
    have "set (map fst (OrderBook.sellOrders (snd (addOrder H bk x))))
          = insert (Order.price (H x)) (set (map fst (OrderBook.sellOrders bk)))"
      and "OrderBook.buyOrders (snd (addOrder H bk x)) = OrderBook.buyOrders bk"
      using True notbuy keys_level_push_asc by (simp_all add: addOrder_def Let_def)
    then show ?thesis
      using assms(2) rests_above_bids [OF assms(1,3) True] unfolding separated_def by auto
  next
    case False
    then show ?thesis using notbuy assms(2) by (simp add: separated_def addOrder_def Let_def)
  qed
qed

lemma matchOrder_sides:
  assumes "matchOrder e H bk x = Inr r"
  shows "OrderBook.buyOrders (snd r) = OrderBook.buyOrders bk \<and>
         OrderBook.sellOrders (snd r) = OrderBook.sellOrders bk"
  using assms by (auto simp: matchOrder_def split: sum.splits if_splits)

lemma apply_op_keeps_book_uncrossed:
  assumes "sides_sorted bk" and "uncrossed bk" and "apply_op H bk c = Inr bk'"
    and "case c of AddOrder x \<Rightarrow> rests_without_crossing H bk x | _ \<Rightarrow> True"
  shows "sides_sorted bk' \<and> uncrossed bk'"
proof -
  have sep: "separated bk" using assms(1,2) by (simp add: uncrossed_separated)
  have "sides_sorted bk' \<and> separated bk'"
  proof (cases c)
    case (AddOrder x)
    then show ?thesis
      using assms addOrder_sides_sorted addOrder_separated [OF assms(1) sep] by auto
  next
    case (RemoveOrder oid)
    then show ?thesis
      using assms removeOrder_sides_sorted removeOrder_separated [OF sep] by auto
  next
    case (UpdateOrder x)
    then show ?thesis
      using assms sep by (auto simp: updateOrder_def split: option.splits)
  next
    case (MatchOrder e x)
    with assms(3) obtain r where r: "matchOrder e H bk x = Inr r" and bk': "bk' = snd r"
      by (cases "matchOrder e H bk x") auto
    show ?thesis
      using matchOrder_sides [OF r] assms(1) sep
      by (simp add: sides_sorted_def separated_def bk')
  qed
  then show ?thesis by (simp add: uncrossed_separated)
qed

lemma apply_ops_keep_book_uncrossed:
  "sides_sorted bk \<Longrightarrow> uncrossed bk \<Longrightarrow> adds_rest_without_crossing H bk cs \<Longrightarrow>
   apply_ops H bk cs = Inr bk' \<Longrightarrow> sides_sorted bk' \<and> uncrossed bk'"
proof (induction cs arbitrary: bk)
  case Nil
  then show ?case by simp
next
  case (Cons c cs)
  from Cons.prems(4) obtain bk1 where step: "apply_op H bk c = Inr bk1"
    and rest: "apply_ops H bk1 cs = Inr bk'"
    by (auto split: sum.splits)
  from Cons.prems(3) step
  have g: "case c of AddOrder x \<Rightarrow> rests_without_crossing H bk x | _ \<Rightarrow> True"
    and g': "adds_rest_without_crossing H bk1 cs"
    by simp_all
  from apply_op_keeps_book_uncrossed [OF Cons.prems(1,2) step g]
  show ?case using Cons.IH [OF _ _ g' rest] by simp
qed

text \<open>
  C3, as amended. Starting from a new book, after every sequence of requests in which
  each added order rests without crossing the best price of the other side, the best bid
  is strictly below the best ask whenever both sides are non-empty.
\<close>

theorem book_uncrossed_when_adds_rest:
  assumes "adds_rest_without_crossing H (OrderBook_ctor name) cs"
    and "apply_ops H (OrderBook_ctor name) cs = Inr bk"
  shows "uncrossed bk"
proof -
  have "sides_sorted (OrderBook_ctor name)" "uncrossed (OrderBook_ctor name)"
    by (simp_all add: sides_sorted_def uncrossed_def OrderBook_ctor_def)
  from apply_ops_keep_book_uncrossed [OF this assms] show ?thesis by simp
qed

text \<open>
  C3 as stated fails. \<open>addOrder\<close> does not match and \<open>matchOrder\<close> removes nothing:
  after the asks 10 at 20 and 5 at 21, adding BUY 12 at 25 and matching it leaves the
  best bid 25 above the best ask 20.
\<close>

theorem book_never_crossed_counterexample:
  "apply_ops heap3 (OrderBook_ctor ''AAPL'')
     [AddOrder 1, AddOrder 2, AddOrder 3, MatchOrder env0 3] = Inr book_crossed \<and>
   OrderBook.buyOrders book_crossed = [(25, [3])] \<and>
   OrderBook.sellOrders book_crossed = [(20, [1]), (21, [2])] \<and>
   \<not> uncrossed book_crossed"
  by (simp add: book_crossed_def book_two_asks_eq addOrder_def matchOrder_def matchBuyOrder_def
      make_trade_def uncrossed_def OrderBook_ctor_def example_defs)

text \<open>
  The statement for two asks, a bid below them and a \<open>matchOrder\<close> of that bid: both
  sides are non-empty.
\<close>

theorem book_uncrossed_when_adds_rest_witness:
  "adds_rest_without_crossing heap3 (OrderBook_ctor ''AAPL'')
     [AddOrder 1, AddOrder 2, AddOrder 5, MatchOrder env0 5] \<and>
   apply_ops heap3 (OrderBook_ctor ''AAPL'')
     [AddOrder 1, AddOrder 2, AddOrder 5, MatchOrder env0 5] = Inr book_resting \<and>
   OrderBook.buyOrders book_resting = [(10, [5])] \<and>
   OrderBook.sellOrders book_resting = [(20, [1]), (21, [2])] \<and>
   uncrossed book_resting"
proof -
  have g: "adds_rest_without_crossing heap3 (OrderBook_ctor ''AAPL'')
     [AddOrder 1, AddOrder 2, AddOrder 5, MatchOrder env0 5]"
    by (simp add: rests_without_crossing_def crossing_level_remains_def best_opposing_def
        opposing_levels_def crosses_def addOrder_def matchOrder_def matchSellOrder_def
        matchBuyOrder_def OrderBook_ctor_def example_defs)
  have r: "apply_ops heap3 (OrderBook_ctor ''AAPL'')
     [AddOrder 1, AddOrder 2, AddOrder 5, MatchOrder env0 5] = Inr book_resting"
    by (simp add: book_resting_def book_two_asks_eq addOrder_def matchOrder_def matchBuyOrder_def
        OrderBook_ctor_def example_defs)
  have s: "OrderBook.buyOrders book_resting = [(10, [5])] \<and>
           OrderBook.sellOrders book_resting = [(20, [1]), (21, [2])]"
    by (simp add: book_resting_def book_two_asks_eq addOrder_def example_defs)
  show ?thesis
    using book_uncrossed_when_adds_rest [OF g r] g r s by simp
qed

subsection \<open>Admission of orders\<close>

lemma level_find_None_iff: "level_find p ls = None \<longleftrightarrow> p \<notin> set (map fst ls)"
proof (induction ls)
  case Nil
  then show ?case by simp
next
  case (Cons l ls)
  then show ?case by (cases l) auto
qed

lemma level_find_push_desc:
  assumes "sorted_wrt (>) (map fst ls)"
  shows "level_find q (level_push (>) p x ls) =
           (if q = p then Some (level_at p ls @ [x]) else level_find q ls)"
  using assms
proof (induction ls)
  case Nil
  then show ?case by (simp add: level_at_def)
next
  case (Cons l ls)
  obtain k v where l: "l = (k, v)" by (cases l)
  from Cons.prems have tl: "sorted_wrt (>) (map fst ls)" and hd: "\<forall>j \<in> set (map fst ls). j < k"
    by (auto simp: l)
  show ?case
  proof (cases "p > k")
    case True
    then have "p \<notin> set (map fst ((k, v) # ls))" using hd by auto
    then have "level_find p ((k, v) # ls) = None" by (simp only: level_find_None_iff not_False_eq_True)
    then show ?thesis using True by (simp add: l level_at_def)
  next
    case False
    show ?thesis
    proof (cases "k > p")
      case True
      then show ?thesis using False Cons.IH [OF tl] by (auto simp: l level_at_def)
    next
      case False
      then have "k = p" using \<open>\<not> p > k\<close> by simp
      then show ?thesis by (simp add: l level_at_def)
    qed
  qed
qed

lemma level_find_push_asc:
  assumes "sorted_wrt (<) (map fst ls)"
  shows "level_find q (level_push (<) p x ls) =
           (if q = p then Some (level_at p ls @ [x]) else level_find q ls)"
  using assms
proof (induction ls)
  case Nil
  then show ?case by (simp add: level_at_def)
next
  case (Cons l ls)
  obtain k v where l: "l = (k, v)" by (cases l)
  from Cons.prems have tl: "sorted_wrt (<) (map fst ls)" and hd: "\<forall>j \<in> set (map fst ls). k < j"
    by (auto simp: l)
  show ?case
  proof (cases "p < k")
    case True
    then have "p \<notin> set (map fst ((k, v) # ls))" using hd by auto
    then have "level_find p ((k, v) # ls) = None" by (simp only: level_find_None_iff not_False_eq_True)
    then show ?thesis using True by (simp add: l level_at_def)
  next
    case False
    show ?thesis
    proof (cases "k < p")
      case True
      then show ?thesis using False Cons.IH [OF tl] by (auto simp: l level_at_def)
    next
      case False
      then have "k = p" using \<open>\<not> p < k\<close> by simp
      then show ?thesis by (simp add: l level_at_def)
    qed
  qed
qed

text \<open>
  C4, as amended. \<open>addOrder\<close> validates nothing. For every order, whatever its quantity
  and price, added to a book whose sides are ordered as \<open>std::map\<close> keeps them, it
  returns true, records the order under its id, counts it in \<open>totalOrders\<close> and
  \<open>totalVolume\<close>, and, when the side is BUY or SELL, appends it at the end of the level
  of its price on that side (a new level when there was none): every other level, the
  other side and the rest of the id map stay as they were, and the cached best bid becomes
  the maximum of itself and the price (for a SELL, the cached best ask the minimum). An
  order of any other side changes neither side.
\<close>

theorem addOrder_accepts_every_order:
  assumes "sides_sorted bk"
  shows "fst (addOrder H bk x) = True \<and>
   sides_sorted (snd (addOrder H bk x)) \<and>
   OrderBook.orders (snd (addOrder H bk x)) = (OrderBook.orders bk)(Order.orderId (H x) \<mapsto> x) \<and>
   OrderBook.totalOrders (snd (addOrder H bk x)) = OrderBook.totalOrders bk + 1 \<and>
   OrderBook.totalVolume (snd (addOrder H bk x)) =
     OrderBook.totalVolume bk + word_of_int (Order.quantity (H x)) \<and>
   OrderBook.symbol (snd (addOrder H bk x)) = OrderBook.symbol bk \<and>
   OrderBook.lastTradePrice (snd (addOrder H bk x)) = OrderBook.lastTradePrice bk \<and>
   OrderBook.lastPrice (snd (addOrder H bk x)) = OrderBook.lastPrice bk \<and>
   (Order.side (H x) = ''BUY'' \<longrightarrow>
      (\<forall>q. level_find q (OrderBook.buyOrders (snd (addOrder H bk x))) =
             (if q = Order.price (H x)
              then Some (level_at (Order.price (H x)) (OrderBook.buyOrders bk) @ [x])
              else level_find q (OrderBook.buyOrders bk))) \<and>
      OrderBook.sellOrders (snd (addOrder H bk x)) = OrderBook.sellOrders bk \<and>
      OrderBook.bestBid (snd (addOrder H bk x)) = max (OrderBook.bestBid bk) (Order.price (H x)) \<and>
      OrderBook.bestAsk (snd (addOrder H bk x)) = OrderBook.bestAsk bk) \<and>
   (Order.side (H x) = ''SELL'' \<longrightarrow>
      (\<forall>q. level_find q (OrderBook.sellOrders (snd (addOrder H bk x))) =
             (if q = Order.price (H x)
              then Some (level_at (Order.price (H x)) (OrderBook.sellOrders bk) @ [x])
              else level_find q (OrderBook.sellOrders bk))) \<and>
      OrderBook.buyOrders (snd (addOrder H bk x)) = OrderBook.buyOrders bk \<and>
      OrderBook.bestAsk (snd (addOrder H bk x)) = min (OrderBook.bestAsk bk) (Order.price (H x)) \<and>
      OrderBook.bestBid (snd (addOrder H bk x)) = OrderBook.bestBid bk) \<and>
   (Order.side (H x) \<noteq> ''BUY'' \<and> Order.side (H x) \<noteq> ''SELL'' \<longrightarrow>
      OrderBook.buyOrders (snd (addOrder H bk x)) = OrderBook.buyOrders bk \<and>
      OrderBook.sellOrders (snd (addOrder H bk x)) = OrderBook.sellOrders bk \<and>
      OrderBook.bestBid (snd (addOrder H bk x)) = OrderBook.bestBid bk \<and>
      OrderBook.bestAsk (snd (addOrder H bk x)) = OrderBook.bestAsk bk)"
proof -
  have b: "sorted_wrt (>) (map fst (OrderBook.buyOrders bk))"
    and a: "sorted_wrt (<) (map fst (OrderBook.sellOrders bk))"
    using assms by (simp_all add: sides_sorted_def)
  show ?thesis
    using addOrder_sides_sorted [OF assms, of H x]
    by (simp add: addOrder_def Let_def level_find_push_desc [OF b] level_find_push_asc [OF a])
qed

text \<open>
  The statement for a second \<open>addOrder\<close> of the SELL order at address 1 to the book of
  two asks: it is appended to the level at 20, behind its first copy.
\<close>

theorem addOrder_accepts_every_order_witness:
  "sides_sorted book_two_asks \<and>
   Order.side (heap3 1) = ''SELL'' \<and> Order.price (heap3 1) = 20 \<and>
   level_at 20 (OrderBook.sellOrders book_two_asks) = [1] \<and>
   fst (addOrder heap3 book_two_asks 1) = True \<and>
   level_find 20 (OrderBook.sellOrders (snd (addOrder heap3 book_two_asks 1))) = Some [1, 1] \<and>
   level_find 21 (OrderBook.sellOrders (snd (addOrder heap3 book_two_asks 1))) = Some [2] \<and>
   OrderBook.buyOrders (snd (addOrder heap3 book_two_asks 1)) = [] \<and>
   OrderBook.orders (snd (addOrder heap3 book_two_asks 1)) = [''s1'' \<mapsto> 1, ''s2'' \<mapsto> 2, ''s1'' \<mapsto> 1] \<and>
   OrderBook.totalOrders (snd (addOrder heap3 book_two_asks 1)) = 3"
proof -
  have srt: "sides_sorted book_two_asks"
    by (simp add: sides_sorted_def book_two_asks_eq)
  have o: "Order.side (heap3 1) = ''SELL''" "Order.price (heap3 1) = 20"
    "Order.orderId (heap3 1) = ''s1''"
    by (simp_all add: example_defs)
  have old: "level_at 20 (OrderBook.sellOrders book_two_asks) = [1]"
    "level_find 21 (OrderBook.sellOrders book_two_asks) = Some [2]"
    "OrderBook.buyOrders book_two_asks = []"
    "OrderBook.orders book_two_asks = [''s1'' \<mapsto> 1, ''s2'' \<mapsto> 2]"
    "OrderBook.totalOrders book_two_asks = 2"
    by (simp_all add: level_at_def book_two_asks_eq)
  show ?thesis
    using addOrder_accepts_every_order [OF srt, of heap3 1] srt o old by simp
qed

text \<open>
  C4 as stated fails: an order of quantity 0 and price -1 is accepted and rests on the buy
  side of a new book.
\<close>

theorem addOrder_rejects_nonpositive_counterexample:
  "Order.quantity order_nonpositive \<le> 0 \<and> Order.price order_nonpositive \<le> 0 \<and>
   fst (addOrder (\<lambda>_. order_nonpositive) (OrderBook_ctor ''AAPL'') 7) = True \<and>
   OrderBook.buyOrders (snd (addOrder (\<lambda>_. order_nonpositive) (OrderBook_ctor ''AAPL'') 7)) = [(- 1, [7])] \<and>
   OrderBook.orders (snd (addOrder (\<lambda>_. order_nonpositive) (OrderBook_ctor ''AAPL'') 7)) ''bad'' = Some 7"
  by (simp add: addOrder_def order_nonpositive_def OrderBook_ctor_def)

subsection \<open>Matching\<close>

text \<open>
  C1, as amended. \<open>matchOrder\<close> looks once at the front order of the best opposing
  level. If that level crosses (BUY: taker price at or above the level's price; SELL: at
  or below) it emits exactly one trade, for the minimum of the taker's and that maker's
  quantities, at the level's price, and returns the book with \<open>lastTradePrice_\<close> set to
  that price and nothing else changed; otherwise it emits no trade and returns the book as
  it was. It reduces no quantity, removes no maker and no level, and does not go on to
  further makers or levels.
\<close>

theorem matchOrder_one_trade_at_best_level:
  "(case best_opposing H bk x of
      None \<Rightarrow> matchOrder e H bk x = Inr ([], bk)
    | Some (L, []) \<Rightarrow>
        matchOrder e H bk x =
          (if crosses (Order.side (H x)) (Order.price (H x)) L then Inl EmptyLevelRead
           else Inr ([], bk))
    | Some (L, m # ms) \<Rightarrow>
        (\<exists>ts. matchOrder e H bk x =
                Inr (ts, if crosses (Order.side (H x)) (Order.price (H x)) L
                         then bk\<lparr>OrderBook.lastTradePrice := L\<rparr> else bk) \<and>
           length ts = (if crosses (Order.side (H x)) (Order.price (H x)) L then 1 else 0) \<and>
           (\<forall>t \<in> set ts. Trade.price t = L \<and>
              Trade.quantity t = min (Order.quantity (H x)) (Order.quantity (H m)))))"
  by (auto simp: best_opposing_def opposing_levels_def crosses_def matchOrder_def
        matchBuyOrder_def matchSellOrder_def make_trade_def Let_def
      split: list.splits option.splits)

text \<open>
  C1 as stated fails. The taker BUY 12 at 25 meets the asks 10 at 20 and 5 at 21:
  \<open>matchOrder\<close> returns the single trade 10 at 20 and stops, although the taker is not
  filled and a crossing level remains; the maker whose whole quantity traded still rests,
  with its quantity unchanged.
\<close>

theorem matchOrder_exhausts_crossing_levels_counterexample:
  "matchOrder env0 heap3 book_two_asks 3 =
     Inr ([make_trade env0 buy_12_at_25 20 sell_10_at_20],
          book_two_asks\<lparr>OrderBook.lastTradePrice := 20\<rparr>) \<and>
   Trade.quantity (make_trade env0 buy_12_at_25 20 sell_10_at_20) = 10 \<and>
   Order.quantity (heap3 1) = 10 \<and>
   OrderBook.sellOrders (book_two_asks\<lparr>OrderBook.lastTradePrice := 20\<rparr>) = [(20, [1]), (21, [2])] \<and>
   \<not> fully_filled heap3 3 [make_trade env0 buy_12_at_25 20 sell_10_at_20] \<and>
   crossing_level_remains heap3 (book_two_asks\<lparr>OrderBook.lastTradePrice := 20\<rparr>) 3"
  by (simp add: book_two_asks_eq matchOrder_def matchBuyOrder_def make_trade_def fully_filled_def
      traded_quantity_def crossing_level_remains_def best_opposing_def opposing_levels_def
      crosses_def example_defs)

text \<open>The statement for the taker BUY 12 at 25 against the asks 10 at 20 and 5 at 21.\<close>

theorem matchOrder_one_trade_at_best_level_witness:
  "best_opposing heap3 book_two_asks 3 = Some (20, [1]) \<and>
   crosses (Order.side (heap3 3)) (Order.price (heap3 3)) 20 \<and>
   (\<exists>ts. matchOrder env0 heap3 book_two_asks 3 =
           Inr (ts, book_two_asks\<lparr>OrderBook.lastTradePrice := 20\<rparr>) \<and>
      length ts = 1 \<and>
      (\<forall>t \<in> set ts. Trade.price t = 20 \<and> Trade.quantity t = 10))"
proof -
  have b: "best_opposing heap3 book_two_asks 3 = Some (20, [1])"
    by (simp add: best_opposing_def opposing_levels_def book_two_asks_eq example_defs)
  have c: "crosses (Order.side (heap3 3)) (Order.price (heap3 3)) 20"
    by (simp add: crosses_def example_defs)
  have q: "min (Order.quantity (heap3 3)) (Order.quantity (heap3 1)) = 10"
    by (simp add: example_defs)
  show ?thesis
    using matchOrder_one_trade_at_best_level [where H = heap3 and bk = book_two_asks and x = 3 and e = env0] b c q
    by auto
qed

text \<open>
  C2, as amended. Every trade that \<open>matchOrder\<close> emits is the only one, has the price
  of the best opposing level and the minimum of the taker's and the front maker's
  quantities as its quantity, which is positive when both of these are; and the traded
  quantity does not exceed the taker's quantity. (The taker's own quantity is never
  written, so no remaining quantity is produced.)
\<close>

theorem matchOrder_trade_price_and_quantity:
  assumes "matchOrder e H bk x = Inr (ts, bk')" and "t \<in> set ts"
  shows "\<exists>L m ms. best_opposing H bk x = Some (L, m # ms) \<and> ts = [t] \<and>
           Trade.price t = L \<and>
           Trade.quantity t = min (Order.quantity (H x)) (Order.quantity (H m)) \<and>
           (0 < Order.quantity (H x) \<and> 0 < Order.quantity (H m) \<longrightarrow> 0 < Trade.quantity t) \<and>
           traded_quantity ts \<le> Order.quantity (H x)"
  using assms
  by (auto simp: best_opposing_def opposing_levels_def matchOrder_def matchBuyOrder_def
        matchSellOrder_def make_trade_def traded_quantity_def Let_def
      split: list.splits if_splits sum.splits)

text \<open>
  C2 as stated fails. After the trade of 10 the taker's order still holds its original 12,
  so traded plus remaining is 22, not 12; and a taker of quantity 0, which nothing
  rejects, yields a trade of quantity 0.
\<close>

theorem matchOrder_volume_conservation_counterexample:
  "matchOrder env0 heap3 book_two_asks 3 =
     Inr ([make_trade env0 buy_12_at_25 20 sell_10_at_20],
          book_two_asks\<lparr>OrderBook.lastTradePrice := 20\<rparr>) \<and>
   traded_quantity [make_trade env0 buy_12_at_25 20 sell_10_at_20] = 10 \<and>
   Order.quantity (heap3 3) = 12 \<and>
   traded_quantity [make_trade env0 buy_12_at_25 20 sell_10_at_20] + Order.quantity (heap3 3)
     \<noteq> Order.quantity (heap3 3) \<and>
   matchOrder env0 heap3 book_two_asks 4 =
     Inr ([make_trade env0 buy_0_at_25 20 sell_10_at_20],
          book_two_asks\<lparr>OrderBook.lastTradePrice := 20\<rparr>) \<and>
   \<not> 0 < Trade.quantity (make_trade env0 buy_0_at_25 20 sell_10_at_20)"
  by (simp add: book_two_asks_eq matchOrder_def matchBuyOrder_def make_trade_def
      traded_quantity_def example_defs)

text \<open>The statement for the taker BUY 12 at 25 against the ask 10 at 20.\<close>

theorem matchOrder_trade_price_and_quantity_witness:
  "matchOrder env0 heap3 book_two_asks 3 =
     Inr ([make_trade env0 buy_12_at_25 20 sell_10_at_20],
          book_two_asks\<lparr>OrderBook.lastTradePrice := 20\<rparr>) \<and>
   best_opposing heap3 book_two_asks 3 = Some (20, [1]) \<and>
   Trade.price (make_trade env0 buy_12_at_25 20 sell_10_at_20) = 20 \<and>
   Trade.quantity (make_trade env0 buy_12_at_25 20 sell_10_at_20) = 10 \<and>
   0 < Trade.quantity (make_trade env0 buy_12_at_25 20 sell_10_at_20) \<and>
   traded_quantity [make_trade env0 buy_12_at_25 20 sell_10_at_20] \<le> 12"
proof -
  have r: "matchOrder env0 heap3 book_two_asks 3 =
     Inr ([make_trade env0 buy_12_at_25 20 sell_10_at_20],
          book_two_asks\<lparr>OrderBook.lastTradePrice := 20\<rparr>)"
    by (simp add: book_two_asks_eq matchOrder_def matchBuyOrder_def make_trade_def example_defs)
  have m: "make_trade env0 buy_12_at_25 20 sell_10_at_20
           \<in> set [make_trade env0 buy_12_at_25 20 sell_10_at_20]"
    by simp
  have q: "Order.quantity (heap3 3) = 12" "Order.quantity (heap3 1) = 10"
    by (simp_all add: example_defs)
  have b: "best_opposing heap3 book_two_asks 3 = Some (20, [1])"
    by (simp add: best_opposing_def opposing_levels_def book_two_asks_eq example_defs)
  show ?thesis
    using matchOrder_trade_price_and_quantity [OF r m] r q b by auto
qed

subsection \<open>Unknown order ids\<close>

text \<open>
  C5. For an order id that the lookup map does not hold, \<open>removeOrder\<close> and
  \<open>updateOrder\<close> return false, raise nothing, and hand back the very same book:
  both sides, the id map, \<open>totalOrders\<close> and \<open>totalVolume\<close> are unchanged.
\<close>

theorem unknown_id_rejected:
  assumes "OrderBook.orders bk oid = None" and "Order.orderId (H x) = oid"
  shows "removeOrder H bk oid = (False, bk) \<and> updateOrder H bk x = Inr (False, bk)"
  using assms by (simp add: removeOrder_def updateOrder_def)

theorem unknown_id_rejected_witness:
  "OrderBook.orders (OrderBook_ctor ''AAPL'') ''o1'' = None \<and>
   Order.orderId ((\<lambda>_. order1) (1::nat)) = ''o1'' \<and>
   removeOrder (\<lambda>_. order1) (OrderBook_ctor ''AAPL'') ''o1'' = (False, OrderBook_ctor ''AAPL'') \<and>
   updateOrder (\<lambda>_. order1) (OrderBook_ctor ''AAPL'') 1 = Inr (False, OrderBook_ctor ''AAPL'')"
  using unknown_id_rejected [of "OrderBook_ctor ''AAPL''" "''o1''" "\<lambda>_. order1" 1]
  by (simp add: OrderBook_ctor_def order1_def)

section \<open>Properties of the market-data store\<close>

subsection \<open>Keys and their comparison\<close>

lemma take_c_str: "take n (c_str s) = c_str (take n s)"
  unfolding c_str_def
proof (induction s arbitrary: n)
  case Nil
  then show ?case by simp
next
  case (Cons c s)
  then show ?case by (cases n) simp_all
qed

lemma strncmp_eq_iff: "strncmp a b n = 0 \<longleftrightarrow> take n (c_str a) = take n (c_str b)"
proof (induction n arbitrary: a b)
  case 0
  then show ?case by simp
next
  case (Suc n)
  show ?case
  proof (cases a)
    case Nil
    then show ?thesis by (cases b) (auto simp: c_str_def Let_def)
  next
    case al: (Cons x xs)
    show ?thesis
    proof (cases b)
      case Nil
      then show ?thesis using al by (auto simp: c_str_def Let_def)
    next
      case (Cons y ys)
      then show ?thesis using al Suc.IH [of xs ys] by (auto simp: c_str_def Let_def)
    qed
  qed
qed

lemma c_str_no_NUL: "NUL \<notin> set (c_str s)"
  unfolding c_str_def by (induction s) auto

lemma c_str_append_NUL: "NUL \<notin> set c \<Longrightarrow> c_str (c @ NUL # r) = c"
  unfolding c_str_def by (induction c) auto

lemma take_strncpy:
  "take n (c_str ((strncpy dest s n)[n := NUL])) = take n (c_str s)"
proof -
  define c where "c = take n (c_str s)"
  have cn: "NUL \<notin> set c" and len: "length c \<le> n"
    using c_str_no_NUL [of s] by (auto simp: c_def dest: in_set_takeD)
  have "take n ((strncpy dest s n)[n := NUL]) = take n (strncpy dest s n)"
    by simp
  also have "\<dots> = c @ replicate (n - length c) NUL"
    using len by (simp add: strncpy_def Let_def c_def [symmetric])
  finally have t: "take n ((strncpy dest s n)[n := NUL]) = c @ replicate (n - length c) NUL" .
  have "c_str (c @ replicate (n - length c) NUL) = c"
  proof (cases "n - length c")
    case 0
    then show ?thesis using cn by (auto simp: c_str_def)
  next
    case (Suc k)
    then show ?thesis using c_str_append_NUL [OF cn] by simp
  qed
  with t have "c_str (take n ((strncpy dest s n)[n := NUL])) = c" by simp
  then have "take n (c_str ((strncpy dest s n)[n := NUL])) = c" by (simp only: take_c_str)
  then show ?thesis by (simp only: c_def)
qed

lemma strncmp_copy_symbol:
  "strncmp (copy_symbol dest s) t (SYMBOL_LENGTH - 1) = 0 \<longleftrightarrow>
   take (SYMBOL_LENGTH - 1) (c_str s) = take (SYMBOL_LENGTH - 1) (c_str t)"
  unfolding copy_symbol_def strncmp_eq_iff take_strncpy ..

subsection \<open>The probing loops\<close>

lemma MAX_SYMBOLS_pos: "0 < MAX_SYMBOLS"
  by (simp add: MAX_SYMBOLS_def)

lemma UINT32_MAX_large: "MAX_SYMBOLS \<le> unat UINT32_MAX"
  by (simp add: MAX_SYMBOLS_def UINT32_MAX_def)

lemma goc_unfold:
  "getOrCreateIndex_loop h s st i =
     (if i < MAX_SYMBOLS
      then (if \<not> SymbolEntry.isActive (symbolTable st ((h + i) mod MAX_SYMBOLS))
            then (nextIndex st, claim_slot st ((h + i) mod MAX_SYMBOLS) s)
            else if key_matches (symbolTable st ((h + i) mod MAX_SYMBOLS)) s
            then (SymbolEntry.index (symbolTable st ((h + i) mod MAX_SYMBOLS)), st)
            else getOrCreateIndex_loop h s st (i + 1))
      else (UINT32_MAX, st))"
  by (subst getOrCreateIndex_loop.simps) (simp add: Let_def claim_slot_def key_matches_def)

lemma getIndex_unfold:
  "getIndex_loop h s st i =
     (if i < MAX_SYMBOLS
      then (if SymbolEntry.isActive (symbolTable st ((h + i) mod MAX_SYMBOLS)) \<and>
               key_matches (symbolTable st ((h + i) mod MAX_SYMBOLS)) s
            then SymbolEntry.index (symbolTable st ((h + i) mod MAX_SYMBOLS))
            else getIndex_loop h s st (i + 1))
      else UINT32_MAX)"
  by (subst getIndex_loop.simps) (simp add: Let_def key_matches_def)

lemma claim_slot_entry:
  "SymbolEntry.isActive (symbolTable (claim_slot st j s) j) \<and>
   key_matches (symbolTable (claim_slot st j s) j) s \<and>
   SymbolEntry.index (symbolTable (claim_slot st j s) j) = nextIndex st"
  using strncmp_copy_symbol [of "SymbolEntry.symbol (symbolTable st j)" s s]
  by (simp add: claim_slot_def key_matches_def)

lemma claim_slot_other:
  "j' \<noteq> j \<Longrightarrow> symbolTable (claim_slot st j s) j' = symbolTable st j'"
  by (simp add: claim_slot_def)

lemma goc_cases:
  "getOrCreateIndex_loop h s st i = (k, st') \<Longrightarrow>
     (st' = st \<and> k = UINT32_MAX \<and>
        (\<forall>i'. i \<le> i' \<and> i' < MAX_SYMBOLS \<longrightarrow>
           SymbolEntry.isActive (symbolTable st ((h + i') mod MAX_SYMBOLS)) \<and>
           \<not> key_matches (symbolTable st ((h + i') mod MAX_SYMBOLS)) s)) \<or>
     (st' = st \<and>
        (\<exists>j < MAX_SYMBOLS. SymbolEntry.isActive (symbolTable st j) \<and>
           key_matches (symbolTable st j) s \<and> k = SymbolEntry.index (symbolTable st j))) \<or>
     (\<exists>j < MAX_SYMBOLS. \<not> SymbolEntry.isActive (symbolTable st j) \<and>
        k = nextIndex st \<and> st' = claim_slot st j s)"
proof (induction h s st i rule: getOrCreateIndex_loop.induct)
  case (1 h s st i)
  let ?j = "(h + i) mod MAX_SYMBOLS"
  have jlt: "?j < MAX_SYMBOLS" using MAX_SYMBOLS_pos by simp
  show ?case
  proof (cases "i < MAX_SYMBOLS")
    case False
    then show ?thesis using "1.prems" by (subst (asm) goc_unfold) auto
  next
    case lt: True
    show ?thesis
    proof (cases "SymbolEntry.isActive (symbolTable st ?j)")
      case False
      then have "k = nextIndex st \<and> st' = claim_slot st ?j s"
        using "1.prems" lt by (subst (asm) goc_unfold) auto
      then show ?thesis using False jlt by blast
    next
      case act: True
      show ?thesis
      proof (cases "key_matches (symbolTable st ?j) s")
        case True
        then have "k = SymbolEntry.index (symbolTable st ?j) \<and> st' = st"
          using "1.prems" lt act by (subst (asm) goc_unfold) auto
        then show ?thesis using True act jlt by blast
      next
        case nomatch: False
        then have rec: "getOrCreateIndex_loop h s st (i + 1) = (k, st')"
          using "1.prems" lt act by (subst (asm) goc_unfold) auto
        have nm: "\<not> strncmp (SymbolEntry.symbol (symbolTable st ?j)) s (SYMBOL_LENGTH - 1) = 0"
          using nomatch by (simp add: key_matches_def)
        note IH = "1.IH" [OF lt refl refl _ nm rec]
        have IH': "(st' = st \<and> k = UINT32_MAX \<and>
            (\<forall>i'. i + 1 \<le> i' \<and> i' < MAX_SYMBOLS \<longrightarrow>
               SymbolEntry.isActive (symbolTable st ((h + i') mod MAX_SYMBOLS)) \<and>
               \<not> key_matches (symbolTable st ((h + i') mod MAX_SYMBOLS)) s)) \<or>
          (st' = st \<and>
            (\<exists>j < MAX_SYMBOLS. SymbolEntry.isActive (symbolTable st j) \<and>
               key_matches (symbolTable st j) s \<and> k = SymbolEntry.index (symbolTable st j))) \<or>
          (\<exists>j < MAX_SYMBOLS. \<not> SymbolEntry.isActive (symbolTable st j) \<and>
            k = nextIndex st \<and> st' = claim_slot st j s)"
          using IH act by simp
        have ext: "(\<forall>i'. i \<le> i' \<and> i' < MAX_SYMBOLS \<longrightarrow>
               SymbolEntry.isActive (symbolTable st ((h + i') mod MAX_SYMBOLS)) \<and>
               \<not> key_matches (symbolTable st ((h + i') mod MAX_SYMBOLS)) s)"
          if "(\<forall>i'. i + 1 \<le> i' \<and> i' < MAX_SYMBOLS \<longrightarrow>
               SymbolEntry.isActive (symbolTable st ((h + i') mod MAX_SYMBOLS)) \<and>
               \<not> key_matches (symbolTable st ((h + i') mod MAX_SYMBOLS)) s)"
        proof (intro allI impI)
          fix i' assume a: "i \<le> i' \<and> i' < MAX_SYMBOLS"
          show "SymbolEntry.isActive (symbolTable st ((h + i') mod MAX_SYMBOLS)) \<and>
                \<not> key_matches (symbolTable st ((h + i') mod MAX_SYMBOLS)) s"
          proof (cases "i' = i")
            case True
            then show ?thesis using act nomatch by simp
          next
            case False
            then have "i + 1 \<le> i'" using a by simp
            then show ?thesis using that a by blast
          qed
        qed
        from IH' ext show ?thesis by blast
      qed
    qed
  qed
qed

lemma goc_active_unchanged:
  assumes "getOrCreateIndex_loop h s st i = (k, st')"
    and "SymbolEntry.isActive (symbolTable st j)"
  shows "symbolTable st' j = symbolTable st j"
proof -
  have "symbolTable (claim_slot st j' s) j = symbolTable st j"
    if "\<not> SymbolEntry.isActive (symbolTable st j')" for j'
  proof -
    have "j \<noteq> j'" using that assms(2) by auto
    then show ?thesis by (rule claim_slot_other)
  qed
  then show ?thesis using goc_cases [OF assms(1)] by auto
qed

lemma goc_then_getIndex_loop:
  "getOrCreateIndex_loop h s st i = (k, st') \<Longrightarrow> unat k < MAX_SYMBOLS \<Longrightarrow>
   getIndex_loop h s st' i = k"
proof (induction h s st i rule: getOrCreateIndex_loop.induct)
  case (1 h s st i)
  let ?j = "(h + i) mod MAX_SYMBOLS"
  show ?case
  proof (cases "i < MAX_SYMBOLS")
    case False
    then have "k = UINT32_MAX" using "1.prems"(1) by (subst (asm) goc_unfold) auto
    then show ?thesis using "1.prems"(2) UINT32_MAX_large by simp
  next
    case lt: True
    show ?thesis
    proof (cases "SymbolEntry.isActive (symbolTable st ?j)")
      case False
      then have "k = nextIndex st \<and> st' = claim_slot st ?j s"
        using "1.prems"(1) lt by (subst (asm) goc_unfold) auto
      then show ?thesis
        using lt claim_slot_entry [of st ?j s] by (subst getIndex_unfold) simp
    next
      case act: True
      show ?thesis
      proof (cases "key_matches (symbolTable st ?j) s")
        case True
        then have "k = SymbolEntry.index (symbolTable st ?j) \<and> st' = st"
          using "1.prems"(1) lt act by (subst (asm) goc_unfold) auto
        then show ?thesis using lt act True by (subst getIndex_unfold) simp
      next
        case False
        then have rec: "getOrCreateIndex_loop h s st (i + 1) = (k, st')"
          using "1.prems"(1) lt act by (subst (asm) goc_unfold) auto
        have nm: "\<not> strncmp (SymbolEntry.symbol (symbolTable st ?j)) s (SYMBOL_LENGTH - 1) = 0"
          using False by (simp add: key_matches_def)
        have "\<not> \<not> SymbolEntry.isActive (symbolTable st ?j)" using act by simp
        note IH = "1.IH" [OF lt refl refl this nm rec "1.prems"(2)]
        have same: "symbolTable st' ?j = symbolTable st ?j"
          by (rule goc_active_unchanged [OF rec act])
        show ?thesis using IH lt False same by (subst getIndex_unfold) simp
      qed
    qed
  qed
qed

lemma getOrCreateIndex_then_getIndex:
  assumes "getOrCreateIndex std_hash st s = (k, st')" and "unat k < MAX_SYMBOLS"
  shows "getIndex std_hash st' s = k"
  using assms unfolding getOrCreateIndex_def getIndex_def by (rule goc_then_getIndex_loop)

subsection \<open>Update and read\<close>

lemma update_then_read:
  assumes "updateMarketData std_hash now store s bid ask lp vol = (True, store')"
  shows "fst (getMarketData std_hash store' s) =
           Some \<lparr> out_bestBid = bid, out_bestAsk = ask, out_lastPrice = lp,
                  out_spread = ask - bid, out_volume = vol, out_timestamp = now \<rparr>"
proof -
  obtain k si where g: "getOrCreateIndex std_hash (symbolIndex store) s = (k, si)"
    by (cases "getOrCreateIndex std_hash (symbolIndex store) s")
  have lt: "unat k < MAX_SYMBOLS"
    using assms g by (auto simp: updateMarketData_def Let_def split: if_splits)
  have si: "symbolIndex store' = si"
    and md: "marketData store' (unat k) =
       (marketData store (unat k))\<lparr> MarketDataSnapshot.bestBid := bid,
          MarketDataSnapshot.bestAsk := ask, MarketDataSnapshot.lastPrice := lp,
          MarketDataSnapshot.volume := vol, MarketDataSnapshot.spread := ask - bid,
          MarketDataSnapshot.timestamp := now,
          MarketDataSnapshot.sequenceNumber :=
            MarketDataSnapshot.sequenceNumber (marketData store (unat k)) + 1,
          MarketDataSnapshot.isValid := True \<rparr>"
    using assms g lt by (auto simp: updateMarketData_def Let_def split: if_splits)
  have gi: "getIndex std_hash (symbolIndex store') s = k"
    unfolding si by (rule getOrCreateIndex_then_getIndex [OF g lt])
  show ?thesis
    using lt by (simp add: getMarketData_def Let_def gi md)
qed

text \<open>
  C6, as amended. After a successful update of a symbol, the next read of that symbol
  succeeds and returns the bid, ask, last price and volume of the update, with the spread
  ask - bid, and as timestamp the clock reading that the update took. Nothing compares
  that reading with the timestamp already stored: over two successive updates of the
  symbol the stored timestamps are ordered exactly as the two clock readings are.
\<close>

theorem update_then_read_roundtrip:
  assumes "updateMarketData std_hash now1 store s bid1 ask1 lp1 vol1 = (True, store1)"
    and "updateMarketData std_hash now2 store1 s bid2 ask2 lp2 vol2 = (True, store2)"
  shows "fst (getMarketData std_hash store1 s) =
           Some \<lparr> out_bestBid = bid1, out_bestAsk = ask1, out_lastPrice = lp1,
                  out_spread = ask1 - bid1, out_volume = vol1, out_timestamp = now1 \<rparr> \<and>
         fst (getMarketData std_hash store2 s) =
           Some \<lparr> out_bestBid = bid2, out_bestAsk = ask2, out_lastPrice = lp2,
                  out_spread = ask2 - bid2, out_volume = vol2, out_timestamp = now2 \<rparr> \<and>
         (out_timestamp (the (fst (getMarketData std_hash store1 s)))
            \<le> out_timestamp (the (fst (getMarketData std_hash store2 s)))
          \<longleftrightarrow> now1 \<le> now2)"
  using update_then_read [OF assms(1)] update_then_read [OF assms(2)] by simp

lemma aapl_first_update:
  "updateMarketData hash_last now MarketDataStore_ctor ''AAPL'' bid ask lp vol =
     (True, snd (updateMarketData hash_last now MarketDataStore_ctor ''AAPL'' bid ask lp vol)) \<and>
   symbolIndex (snd (updateMarketData hash_last now MarketDataStore_ctor ''AAPL'' bid ask lp vol))
     = claim_slot SymbolIndex_ctor 76 ''AAPL''"
  by (simp add: updateMarketData_def getOrCreateIndex_def goc_unfold [of _ _ _ 0]
      MarketDataStore_ctor_def SymbolIndex_ctor_def MAX_SYMBOLS_def hash_last_def Let_def
      claim_slot_def prod_eq_iff)

lemma aapl_second_update:
  assumes "symbolIndex store = claim_slot SymbolIndex_ctor 76 ''AAPL''"
  shows "updateMarketData hash_last now store ''AAPL'' bid ask lp vol =
     (True, snd (updateMarketData hash_last now store ''AAPL'' bid ask lp vol))"
proof -
  have n0: "nextIndex SymbolIndex_ctor = 0" by (simp add: SymbolIndex_ctor_def)
  have "getOrCreateIndex hash_last (symbolIndex store) ''AAPL'' = (0, symbolIndex store)"
    using claim_slot_entry [of SymbolIndex_ctor 76 "''AAPL''"] n0
    by (simp add: getOrCreateIndex_def goc_unfold [of _ _ _ 0] assms MAX_SYMBOLS_def hash_last_def)
  then have "fst (updateMarketData hash_last now store ''AAPL'' bid ask lp vol)"
    by (simp add: updateMarketData_def MAX_SYMBOLS_def Let_def)
  then show ?thesis by (simp add: prod_eq_iff)
qed

lemma first_update:
  "updateMarketData hash_last 1000 MarketDataStore_ctor ''AAPL'' 1 2 (3 / 2) 100
     = (True, store_after_first)"
  using aapl_first_update [of 1000 1 2 "3 / 2" 100] by (simp add: store_after_first_def)

lemma second_update:
  "updateMarketData hash_last 2000 store_after_first ''AAPL'' 3 5 4 200
     = (True, store_after_second)"
proof -
  have "symbolIndex store_after_first = claim_slot SymbolIndex_ctor 76 ''AAPL''"
    using aapl_first_update [of 1000 1 2 "3 / 2" 100] by (simp add: store_after_first_def)
  from aapl_second_update [OF this, of 2000 3 5 4 200]
  show ?thesis by (simp add: store_after_second_def)
qed

lemma late_first_update:
  "updateMarketData hash_last 2000 MarketDataStore_ctor ''AAPL'' 1 2 (3 / 2) 100
     = (True, store_late_first)"
  using aapl_first_update [of 2000 1 2 "3 / 2" 100] by (simp add: store_late_first_def)

lemma late_second_update:
  "updateMarketData hash_last 1000 store_late_first ''AAPL'' 3 5 4 200
     = (True, store_late_second)"
proof -
  have "symbolIndex store_late_first = claim_slot SymbolIndex_ctor 76 ''AAPL''"
    using aapl_first_update [of 2000 1 2 "3 / 2" 100] by (simp add: store_late_first_def)
  from aapl_second_update [OF this, of 1000 3 5 4 200]
  show ?thesis by (simp add: store_late_second_def)
qed

text \<open>
  C6 as stated fails in its last part. Two successive successful updates of AAPL, taken at
  the clock readings 2000 and then 1000, are read back with the timestamps 2000 and then
  1000: the stored timestamp has decreased.
\<close>

theorem timestamp_non_decreasing_counterexample:
  "updateMarketData hash_last 2000 MarketDataStore_ctor ''AAPL'' 1 2 (3 / 2) 100
     = (True, store_late_first) \<and>
   updateMarketData hash_last 1000 store_late_first ''AAPL'' 3 5 4 200
     = (True, store_late_second) \<and>
   fst (getMarketData hash_last store_late_first ''AAPL'') =
     Some \<lparr> out_bestBid = 1, out_bestAsk = 2, out_lastPrice = 3 / 2,
            out_spread = 1, out_volume = 100, out_timestamp = 2000 \<rparr> \<and>
   fst (getMarketData hash_last store_late_second ''AAPL'') =
     Some \<lparr> out_bestBid = 3, out_bestAsk = 5, out_lastPrice = 4,
            out_spread = 2, out_volume = 200, out_timestamp = 1000 \<rparr> \<and>
   \<not> out_timestamp (the (fst (getMarketData hash_last store_late_first ''AAPL'')))
       \<le> out_timestamp (the (fst (getMarketData hash_last store_late_second ''AAPL'')))"
  using update_then_read [OF late_first_update] update_then_read [OF late_second_update]
    late_first_update late_second_update
  by simp

text \<open>The statement for two updates of AAPL in a new store, at the readings 1000 and 2000.\<close>

theorem update_then_read_roundtrip_witness:
  "updateMarketData hash_last 1000 MarketDataStore_ctor ''AAPL'' 1 2 (3 / 2) 100
     = (True, store_after_first) \<and>
   updateMarketData hash_last 2000 store_after_first ''AAPL'' 3 5 4 200
     = (True, store_after_second) \<and>
   fst (getMarketData hash_last store_after_first ''AAPL'') =
     Some \<lparr> out_bestBid = 1, out_bestAsk = 2, out_lastPrice = 3 / 2,
            out_spread = 1, out_volume = 100, out_timestamp = 1000 \<rparr> \<and>
   fst (getMarketData hash_last store_after_second ''AAPL'') =
     Some \<lparr> out_bestBid = 3, out_bestAsk = 5, out_lastPrice = 4,
            out_spread = 2, out_volume = 200, out_timestamp = 2000 \<rparr> \<and>
   out_timestamp (the (fst (getMarketData hash_last store_after_first ''AAPL'')))
     \<le> out_timestamp (the (fst (getMarketData hash_last store_after_second ''AAPL'')))"
  using update_then_read_roundtrip [OF first_update second_update]
    first_update second_update
  by simp

subsection \<open>Indices handed out by interning\<close>










lemma probe_covers:
  assumes "h < MAX_SYMBOLS" and "j < MAX_SYMBOLS"
  shows "\<exists>i < MAX_SYMBOLS. (h + i) mod MAX_SYMBOLS = j"
proof (cases "h \<le> j")
  case True
  then have "(h + (j - h)) mod MAX_SYMBOLS = j" using assms(2) by simp
  moreover have "j - h < MAX_SYMBOLS" using assms(2) by simp
  ultimately show ?thesis by blast
next
  case False
  then have "h + (MAX_SYMBOLS + j - h) = MAX_SYMBOLS + j" using assms by simp
  then have "(h + (MAX_SYMBOLS + j - h)) mod MAX_SYMBOLS = j" using assms(2) by simp
  moreover have "MAX_SYMBOLS + j - h < MAX_SYMBOLS" using False assms by simp
  ultimately show ?thesis by blast
qed

lemma key_matches_iff:
  "key_matches e s \<longleftrightarrow>
   take (SYMBOL_LENGTH - 1) (c_str (SymbolEntry.symbol e)) = take (SYMBOL_LENGTH - 1) (c_str s)"
  by (simp only: key_matches_def strncmp_eq_iff)





subsection \<open>Symbols with a common prefix\<close>

lemma update_success:
  assumes "updateMarketData std_hash now store s bid ask lp vol = (True, store')"
  obtains k where "getOrCreateIndex std_hash (symbolIndex store) s = (k, symbolIndex store')"
    and "unat k < MAX_SYMBOLS"
    and "marketData store' (unat k) =
       (marketData store (unat k))\<lparr> MarketDataSnapshot.bestBid := bid,
          MarketDataSnapshot.bestAsk := ask, MarketDataSnapshot.lastPrice := lp,
          MarketDataSnapshot.volume := vol, MarketDataSnapshot.spread := ask - bid,
          MarketDataSnapshot.timestamp := now,
          MarketDataSnapshot.sequenceNumber :=
            MarketDataSnapshot.sequenceNumber (marketData store (unat k)) + 1,
          MarketDataSnapshot.isValid := True \<rparr>"
proof -
  obtain k si where g: "getOrCreateIndex std_hash (symbolIndex store) s = (k, si)"
    by (cases "getOrCreateIndex std_hash (symbolIndex store) s")
  have lt: "unat k < MAX_SYMBOLS"
    using assms g by (auto simp: updateMarketData_def Let_def split: if_splits)
  have "symbolIndex store' = si"
    and "marketData store' (unat k) =
       (marketData store (unat k))\<lparr> MarketDataSnapshot.bestBid := bid,
          MarketDataSnapshot.bestAsk := ask, MarketDataSnapshot.lastPrice := lp,
          MarketDataSnapshot.volume := vol, MarketDataSnapshot.spread := ask - bid,
          MarketDataSnapshot.timestamp := now,
          MarketDataSnapshot.sequenceNumber :=
            MarketDataSnapshot.sequenceNumber (marketData store (unat k)) + 1,
          MarketDataSnapshot.isValid := True \<rparr>"
    using assms g lt by (auto simp: updateMarketData_def Let_def split: if_splits)
  with g lt that show ?thesis by simp
qed

lemma getIndex_loop_cong:
  assumes "\<And>e. key_matches e a = key_matches e b"
  shows "getIndex_loop h a st i = getIndex_loop h b st i"
proof (induction "MAX_SYMBOLS - i" arbitrary: i)
  case 0
  then show ?case by (simp add: getIndex_unfold [of h _ st i])
next
  case (Suc n)
  then have "n = MAX_SYMBOLS - (i + 1)" by simp
  from Suc.hyps(1) [OF this] show ?case
    using assms by (simp add: getIndex_unfold [of h _ st i])
qed

lemma getIndex_loop_unique:
  assumes "\<forall>j < MAX_SYMBOLS. SymbolEntry.isActive (symbolTable st j) \<and>
             key_matches (symbolTable st j) s \<longrightarrow> SymbolEntry.index (symbolTable st j) = k"
    and "i \<le> i'" and "i' < MAX_SYMBOLS"
    and "SymbolEntry.isActive (symbolTable st ((h + i') mod MAX_SYMBOLS))"
    and "key_matches (symbolTable st ((h + i') mod MAX_SYMBOLS)) s"
  shows "getIndex_loop h s st i = k"
  using assms(2)
proof (induction "i' - i" arbitrary: i)
  case 0
  then have "i = i'" by simp
  then show ?case
    using assms(1,3,4,5) MAX_SYMBOLS_pos by (simp add: getIndex_unfold [of h _ st i'])
next
  case (Suc n)
  then have lt: "i < i'" and n: "n = i' - (i + 1)" by simp_all
  have rec: "getIndex_loop h s st (i + 1) = k"
    using Suc.hyps(1) [OF n] lt by simp
  have ilt: "i < MAX_SYMBOLS" using lt assms(3) by simp
  have jlt: "(h + i) mod MAX_SYMBOLS < MAX_SYMBOLS" using MAX_SYMBOLS_pos by simp
  show ?case
    using rec ilt assms(1) jlt by (simp add: getIndex_unfold [of h _ st i])
qed

lemma read_at_index:
  assumes "getIndex std_hash (symbolIndex store) s = k" and "unat k < MAX_SYMBOLS"
    and "MarketDataSnapshot.isValid (marketData store (unat k))"
  shows "fst (getMarketData std_hash store s) =
     Some \<lparr> out_bestBid = MarketDataSnapshot.bestBid (marketData store (unat k)),
            out_bestAsk = MarketDataSnapshot.bestAsk (marketData store (unat k)),
            out_lastPrice = MarketDataSnapshot.lastPrice (marketData store (unat k)),
            out_spread = MarketDataSnapshot.spread (marketData store (unat k)),
            out_volume = MarketDataSnapshot.volume (marketData store (unat k)),
            out_timestamp = MarketDataSnapshot.timestamp (marketData store (unat k)) \<rparr>"
  using assms by (simp add: getMarketData_def Let_def)

lemma getIndex_alias:
  assumes pre: "take (SYMBOL_LENGTH - 1) (c_str a) = take (SYMBOL_LENGTH - 1) (c_str b)"
    and g: "getOrCreateIndex std_hash st a = (k, st')" and lt: "unat k < MAX_SYMBOLS"
    and how: "std_hash a mod MAX_SYMBOLS = std_hash b mod MAX_SYMBOLS \<or>
       (\<forall>j < MAX_SYMBOLS. SymbolEntry.isActive (symbolTable st j) \<longrightarrow>
          \<not> key_matches (symbolTable st j) a)"
  shows "getIndex std_hash st' b = k"
proof -
  have km: "key_matches e a = key_matches e b" for e
    using pre by (simp only: key_matches_iff)
  have ga: "getIndex std_hash st' a = k"
    by (rule getOrCreateIndex_then_getIndex [OF g lt])
  from how show ?thesis
  proof
    assume "std_hash a mod MAX_SYMBOLS = std_hash b mod MAX_SYMBOLS"
    then have "getIndex std_hash st' b = getIndex std_hash st' a"
      using getIndex_loop_cong [of a b, OF km] by (simp add: getIndex_def)
    with ga show ?thesis by simp
  next
    assume fresh: "\<forall>j < MAX_SYMBOLS. SymbolEntry.isActive (symbolTable st j) \<longrightarrow>
          \<not> key_matches (symbolTable st j) a"
    let ?h = "std_hash a mod MAX_SYMBOLS"
    from g have loop: "getOrCreateIndex_loop ?h a st 0 = (k, st')"
      by (simp add: getOrCreateIndex_def)
    have "k \<noteq> UINT32_MAX" using lt UINT32_MAX_large by auto
    with goc_cases [OF loop] fresh obtain j where j: "j < MAX_SYMBOLS"
      and jfree: "\<not> SymbolEntry.isActive (symbolTable st j)"
      and k: "k = nextIndex st" and st': "st' = claim_slot st j a"
      by blast
    have uniq: "\<forall>j' < MAX_SYMBOLS. SymbolEntry.isActive (symbolTable st' j') \<and>
             key_matches (symbolTable st' j') b \<longrightarrow> SymbolEntry.index (symbolTable st' j') = k"
    proof (intro allI impI)
      fix j' assume j': "j' < MAX_SYMBOLS"
        and am: "SymbolEntry.isActive (symbolTable st' j') \<and> key_matches (symbolTable st' j') b"
      show "SymbolEntry.index (symbolTable st' j') = k"
      proof (cases "j' = j")
        case True
        then show ?thesis using claim_slot_entry [of st j a] st' k by simp
      next
        case False
        then have "symbolTable st' j' = symbolTable st j'"
          unfolding st' by (rule claim_slot_other)
        then show ?thesis using am fresh j' km by auto
      qed
    qed
    have hb: "std_hash b mod MAX_SYMBOLS < MAX_SYMBOLS" using MAX_SYMBOLS_pos by simp
    from probe_covers [OF hb j] obtain i' where i': "i' < MAX_SYMBOLS"
      and cov: "(std_hash b mod MAX_SYMBOLS + i') mod MAX_SYMBOLS = j" by blast
    have act: "SymbolEntry.isActive (symbolTable st' ((std_hash b mod MAX_SYMBOLS + i') mod MAX_SYMBOLS))"
      and mat: "key_matches (symbolTable st' ((std_hash b mod MAX_SYMBOLS + i') mod MAX_SYMBOLS)) b"
      using claim_slot_entry [of st j a] km unfolding cov st' by simp_all
    show ?thesis
      unfolding getIndex_def
      by (rule getIndex_loop_unique [OF uniq _ i' act mat]) simp
  qed
qed

text \<open>
  C9, as amended. Let two symbols agree on their first 7 bytes, and let an update of the
  first succeed. If both hash to the same starting slot, or if the table held no key of
  that prefix before the update, then the lookup of the second resolves to the same index
  as the first, and a read of the second returns the first one's update.
\<close>

theorem prefix_alias_read:
  assumes "take (SYMBOL_LENGTH - 1) (c_str a) = take (SYMBOL_LENGTH - 1) (c_str b)"
    and "updateMarketData std_hash now store a bid ask lp vol = (True, store')"
    and "std_hash a mod MAX_SYMBOLS = std_hash b mod MAX_SYMBOLS \<or>
       (\<forall>j < MAX_SYMBOLS. SymbolEntry.isActive (symbolTable (symbolIndex store) j) \<longrightarrow>
          \<not> key_matches (symbolTable (symbolIndex store) j) a)"
  shows "getIndex std_hash (symbolIndex store') b = getIndex std_hash (symbolIndex store') a \<and>
         fst (getMarketData std_hash store' b) =
           Some \<lparr> out_bestBid = bid, out_bestAsk = ask, out_lastPrice = lp,
                  out_spread = ask - bid, out_volume = vol, out_timestamp = now \<rparr>"
proof -
  from update_success [OF assms(2)] obtain k
    where g: "getOrCreateIndex std_hash (symbolIndex store) a = (k, symbolIndex store')"
      and lt: "unat k < MAX_SYMBOLS"
      and md: "marketData store' (unat k) =
       (marketData store (unat k))\<lparr> MarketDataSnapshot.bestBid := bid,
          MarketDataSnapshot.bestAsk := ask, MarketDataSnapshot.lastPrice := lp,
          MarketDataSnapshot.volume := vol, MarketDataSnapshot.spread := ask - bid,
          MarketDataSnapshot.timestamp := now,
          MarketDataSnapshot.sequenceNumber :=
            MarketDataSnapshot.sequenceNumber (marketData store (unat k)) + 1,
          MarketDataSnapshot.isValid := True \<rparr>"
    by blast
  have gb: "getIndex std_hash (symbolIndex store') b = k"
    by (rule getIndex_alias [OF assms(1) g lt assms(3)])
  have ga: "getIndex std_hash (symbolIndex store') a = k"
    by (rule getOrCreateIndex_then_getIndex [OF g lt])
  have "MarketDataSnapshot.isValid (marketData store' (unat k))" by (simp add: md)
  from read_at_index [OF gb lt this] show ?thesis by (simp add: md ga gb)
qed

lemmas store_eval =
  updateMarketData_def getOrCreateIndex_def getMarketData_def getIndex_def
  goc_unfold [of _ _ _ 0] getIndex_unfold [of _ _ _ 0] claim_slot_def key_matches_iff
  copy_symbol_def strncpy_def c_str_def NUL_def MarketDataStore_ctor_def SymbolIndex_ctor_def
  MAX_SYMBOLS_def SYMBOL_LENGTH_def hash_last_def Let_def

lemma store_a_index:
  "symbolIndex store_a =
     \<lparr> symbolTable = (symbolTable SymbolIndex_ctor)
         (72 := \<lparr> SymbolEntry.symbol = ''ABCDEFG'' @ [NUL], SymbolEntry.index = 0,
                  SymbolEntry.isActive = True \<rparr>),
       nextIndex = 1 \<rparr>"
  by (simp add: store_a_def symbol_a_def store_eval)

lemma store_ab_index:
  "symbolIndex store_ab =
     \<lparr> symbolTable = (symbolTable SymbolIndex_ctor)
         (72 := \<lparr> SymbolEntry.symbol = ''ABCDEFG'' @ [NUL], SymbolEntry.index = 0,
                  SymbolEntry.isActive = True \<rparr>,
          73 := \<lparr> SymbolEntry.symbol = ''ABCDEFG'' @ [NUL], SymbolEntry.index = 1,
                  SymbolEntry.isActive = True \<rparr>),
       nextIndex = 2 \<rparr>"
  by (simp add: store_ab_def symbol_b_def store_a_index store_eval)

text \<open>
  C9 as stated fails. With a hash that starts ABCDEFGH and ABCDEFGI at different slots,
  an update of the first and then of the second gives them the indices 0 and 1, and the
  read of the first still returns its own update, not the second's.
\<close>

theorem prefix_alias_same_slot_counterexample:
  "symbol_a \<noteq> symbol_b \<and>
   take (SYMBOL_LENGTH - 1) (c_str symbol_a) = take (SYMBOL_LENGTH - 1) (c_str symbol_b) \<and>
   fst (updateMarketData hash_last 1000 MarketDataStore_ctor symbol_a 1 2 (3 / 2) 100) = True \<and>
   fst (updateMarketData hash_last 2000 store_a symbol_b 3 5 4 200) = True \<and>
   getIndex hash_last (symbolIndex store_ab) symbol_a = 0 \<and>
   getIndex hash_last (symbolIndex store_ab) symbol_b = 1 \<and>
   fst (getMarketData hash_last store_ab symbol_a) =
     Some \<lparr> out_bestBid = 1, out_bestAsk = 2, out_lastPrice = 3 / 2,
            out_spread = 1, out_volume = 100, out_timestamp = 1000 \<rparr>"
proof -
  have ne: "symbol_a \<noteq> symbol_b"
    and pre: "take (SYMBOL_LENGTH - 1) (c_str symbol_a) = take (SYMBOL_LENGTH - 1) (c_str symbol_b)"
    by (simp_all add: symbol_a_def symbol_b_def c_str_def NUL_def SYMBOL_LENGTH_def)
  have ua: "fst (updateMarketData hash_last 1000 MarketDataStore_ctor symbol_a 1 2 (3 / 2) 100) = True"
    by (simp add: symbol_a_def store_eval)
  have ub: "fst (updateMarketData hash_last 2000 store_a symbol_b 3 5 4 200) = True"
    by (simp add: symbol_b_def store_a_index store_eval)
  have ga: "getIndex hash_last (symbolIndex store_ab) symbol_a = 0"
    by (simp add: store_ab_index symbol_a_def store_eval)
  have gb: "getIndex hash_last (symbolIndex store_ab) symbol_b = 1"
    by (simp add: store_ab_index symbol_b_def store_eval)
  have md: "marketData store_ab 0 =
      \<lparr> MarketDataSnapshot.bestBid = 1, MarketDataSnapshot.bestAsk = 2,
        MarketDataSnapshot.lastPrice = 3 / 2, MarketDataSnapshot.spread = 1,
        MarketDataSnapshot.volume = 100, MarketDataSnapshot.timestamp = 1000,
        MarketDataSnapshot.sequenceNumber = 1, MarketDataSnapshot.isValid = True \<rparr>"
    by (simp add: store_ab_def store_a_def symbol_a_def symbol_b_def store_eval)
  have rd: "fst (getMarketData hash_last store_ab symbol_a) =
     Some \<lparr> out_bestBid = 1, out_bestAsk = 2, out_lastPrice = 3 / 2,
            out_spread = 1, out_volume = 100, out_timestamp = 1000 \<rparr>"
    using read_at_index [of hash_last store_ab symbol_a 0] ga md
    by (simp add: MAX_SYMBOLS_def)
  from ne pre ua ub ga gb rd show ?thesis by simp
qed

text \<open>
  The statement for ABCDEFGH and ABCDEFGI, which start at different slots: after the
  update of the first alone, the read of the second returns it.
\<close>

theorem prefix_alias_read_witness:
  "take (SYMBOL_LENGTH - 1) (c_str symbol_a) = take (SYMBOL_LENGTH - 1) (c_str symbol_b) \<and>
   symbol_a \<noteq> symbol_b \<and>
   hash_last symbol_a mod MAX_SYMBOLS \<noteq> hash_last symbol_b mod MAX_SYMBOLS \<and>
   updateMarketData hash_last 1000 MarketDataStore_ctor symbol_a 1 2 (3 / 2) 100 = (True, store_a) \<and>
   getIndex hash_last (symbolIndex store_a) symbol_b = getIndex hash_last (symbolIndex store_a) symbol_a \<and>
   fst (getMarketData hash_last store_a symbol_b) =
     Some \<lparr> out_bestBid = 1, out_bestAsk = 2, out_lastPrice = 3 / 2,
            out_spread = 1, out_volume = 100, out_timestamp = 1000 \<rparr>"
proof -
  have pre: "take (SYMBOL_LENGTH - 1) (c_str symbol_a) = take (SYMBOL_LENGTH - 1) (c_str symbol_b)"
    and ne: "symbol_a \<noteq> symbol_b"
    and hne: "hash_last symbol_a mod MAX_SYMBOLS \<noteq> hash_last symbol_b mod MAX_SYMBOLS"
    by (simp_all add: symbol_a_def symbol_b_def c_str_def NUL_def SYMBOL_LENGTH_def
        hash_last_def MAX_SYMBOLS_def)
  have "fst (updateMarketData hash_last 1000 MarketDataStore_ctor symbol_a 1 2 (3 / 2) 100) = True"
    by (simp add: symbol_a_def store_eval)
  then have ua: "updateMarketData hash_last 1000 MarketDataStore_ctor symbol_a 1 2 (3 / 2) 100
      = (True, store_a)"
    by (simp add: store_a_def prod_eq_iff)
  have fresh: "hash_last symbol_a mod MAX_SYMBOLS = hash_last symbol_b mod MAX_SYMBOLS \<or>
       (\<forall>j < MAX_SYMBOLS. SymbolEntry.isActive (symbolTable (symbolIndex MarketDataStore_ctor) j) \<longrightarrow>
          \<not> key_matches (symbolTable (symbolIndex MarketDataStore_ctor) j) symbol_a)"
    by (simp add: MarketDataStore_ctor_def SymbolIndex_ctor_def)
  show ?thesis
    using prefix_alias_read [OF pre ua fresh] pre ne hne ua by simp
qed

section \<open>Properties of the quote decoder\<close>

lemma stod_empty: "stod [] = Inl InvalidArgument"
  by (simp add: stod_def read_sign_def)

text \<open>
  The text taken as the value never contains a double quote, since the scan for its end
  stops at one: the branch that removes surrounding quotes is never taken.
\<close>

lemma value_text_no_quote: "DQUOTE \<notin> set (value_text colonPos)"
proof -
  let ?v = "takeWhile (\<lambda>c. c \<noteq> CHR '','' \<and> c \<noteq> CHR ''}'' \<and> c \<noteq> CHR '']'' \<and> c \<noteq> DQUOTE)
              (dropWhile (\<lambda>c. c = CHR '' '' \<or> c = CHR 0x09 \<or> c = CHR 0x0A) (tl colonPos))"
  have nq: "DQUOTE \<notin> set ?v" by (auto dest: set_takeWhileD)
  have "front ?v \<noteq> DQUOTE"
  proof (cases ?v)
    case Nil
    then show ?thesis by (simp add: front_def NUL_def DQUOTE_def)
  next
    case (Cons c cs)
    then have "c \<in> set ?v" by simp
    with nq have "c \<noteq> DQUOTE" by metis
    then show ?thesis using Cons by (simp add: front_def)
  qed
  then have "value_text colonPos = ?v" by (simp add: value_text_def Let_def)
  with nq show ?thesis by simp
qed

text \<open>A value that opens with a double quote is read as the empty text and refused.\<close>

lemma extractDouble_quoted_value:
  assumes "strstr json (DQUOTE # key @ [DQUOTE]) = Some keyPos"
    and "strchr keyPos (CHR '':'') = Some colonPos"
    and "dropWhile (\<lambda>c. c = CHR '' '' \<or> c = CHR 0x09 \<or> c = CHR 0x0A) (tl colonPos) = DQUOTE # rest"
  shows "extractDouble json key = Inl InvalidArgument"
  using assms
  by (simp add: extractDouble_def find_value_def value_text_def front_def NUL_def DQUOTE_def
      stod_empty)

text \<open>The same envelope with JSON numbers for values is decoded.\<close>

lemma numeric_envelope_is_valid:
  "parseAlphaVantage 1000 ''AAPL'' envelope_numbers =
     Inr \<lparr> MarketData.symbol = ''AAPL'', MarketData.bestBid = 1 / 2, MarketData.bestAsk = 2,
           MarketData.lastPrice = 3 / 2, MarketData.openPrice = 1, MarketData.high = 2,
           MarketData.low = 1 / 2, MarketData.volume = 100, MarketData.timestamp = 1000,
           MarketData.isValid = True \<rparr>"
  by (simp add: parseAlphaVantage_def extractDouble_def extractLong_def find_value_def value_text_def
      envelope_numbers_def c_str_def NUL_def DQUOTE_def front_def stod_def stol_def read_sign_def
      read_exponent_def is_digit_def is_space_def digits_value_def DBL_MAX_def DBL_MIN_def
      caught_def MarketData_default_def)

text \<open>
  C8. The claim is that an envelope whose five values are quoted numeric strings is
  decoded, the given one with valid = true, bestBid = 0.5, bestAsk = 2 and
  lastPrice = 1.5. The code does not do that: on this envelope \<open>extractDouble\<close> reads
  the empty text for \<open>02. open\<close>, \<open>std::stod\<close> throws, and both \<open>parseAlphaVantage\<close>
  and \<open>parseAlphaVantageSafe\<close> return the data marked invalid, with every number still 0.
\<close>

theorem quoted_envelope_is_invalid:
  "parseAlphaVantage 1000 ''AAPL'' envelope_quoted =
     Inr \<lparr> MarketData.symbol = ''AAPL'', MarketData.bestBid = 0, MarketData.bestAsk = 0,
           MarketData.lastPrice = 0, MarketData.openPrice = 0, MarketData.high = 0,
           MarketData.low = 0, MarketData.volume = 0, MarketData.timestamp = 0,
           MarketData.isValid = False \<rparr> \<and>
   parseAlphaVantageSafe 1000 ''AAPL'' envelope_quoted =
     Inr \<lparr> MarketData.symbol = ''AAPL'', MarketData.bestBid = 0, MarketData.bestAsk = 0,
           MarketData.lastPrice = 0, MarketData.openPrice = 0, MarketData.high = 0,
           MarketData.low = 0, MarketData.volume = 0, MarketData.timestamp = 0,
           MarketData.isValid = False \<rparr> \<and>
   extractDouble (c_str envelope_quoted) ''05. price'' = Inl InvalidArgument"
  by (simp add: parseAlphaVantageSafe_def parseAlphaVantage_def extractDouble_def find_value_def
      value_text_def envelope_quoted_def c_str_def NUL_def DQUOTE_def front_def stod_empty
      caught_def MarketData_default_def)

end
